theory Spec2Isabelle
  imports Complex_Main "HOL-Library.Sublist"
begin

section \<open>Values shared by the modules\<close>

text \<open>
  A JavaScript number is modelled as a rational: every finite double is one, and the
  code under study only compares, adds and clamps.  Rounding, \<open>NaN\<close> and the
  infinities are outside the model; a value that is \<open>undefined\<close> or does not
  convert to a number is \<open>None\<close>.  A string is a list of 8-bit characters, that
  is, JavaScript code units below 256.
\<close>

type_synonym number = rat

type_synonym path = string

text \<open>\<open>Number(x) || d\<close>: \<open>NaN\<close> and \<open>0\<close> are falsy, so both give \<open>d\<close>.\<close>

definition number_or :: "number option \<Rightarrow> number \<Rightarrow> number" where
  "number_or x d = (case x of None \<Rightarrow> d | Some v \<Rightarrow> if v = 0 then d else v)"

text \<open>The two media kinds, \<open>MEDIA_AUDIO = 'audio'\<close> and \<open>MEDIA_VIDEO = 'video'\<close>.\<close>

datatype media_type = MEDIA_AUDIO | MEDIA_VIDEO

text \<open>
  Thrown values.  \<open>YoutubeError\<close> and \<open>DownloadError\<close> are the two subclasses of
  \<open>Error\<close> the repository declares; \<open>PlainError\<close> is any other \<open>Error\<close> object
  (the transport's, the file system's).  The \<open>details\<close> field is not modelled.
\<close>

datatype error_class = YoutubeError | DownloadError | PlainError

record js_error =
  cls :: error_class
  code :: "string option"
  message :: string

definition new_YoutubeError :: "string \<Rightarrow> string \<Rightarrow> js_error" where
  "new_YoutubeError c m = \<lparr>cls = YoutubeError, code = Some c, message = m\<rparr>"

definition new_DownloadError :: "string \<Rightarrow> string \<Rightarrow> js_error" where
  "new_DownloadError c m = \<lparr>cls = DownloadError, code = Some c, message = m\<rparr>"

text \<open>
  A candidate as \<open>normalizeVideo\<close> or \<open>normalizePlaylist\<close> builds it; a playlist
  has no \<open>durationSeconds\<close>.
\<close>

datatype candidate_kind = kind_video | kind_playlist

record candidate =
  kind :: candidate_kind
  title :: string
  url :: string
  durationSeconds :: "number option"
  durationText :: string

text \<open>\<open>MediaResult\<close>: the finished file and its size in bytes.\<close>

record media_result =
  filePath :: path
  fileSize :: nat

section \<open>downloader.js: compression profiles\<close>

definition clampNumber :: "number \<Rightarrow> number \<Rightarrow> number \<Rightarrow> number" where
  "clampNumber v lo hi = max lo (min hi v)"

record profile =
  maxHeight :: number
  crf :: number
  audioBitrateKbps :: number

record video_options =
  maxFileSize :: number
  videoMaxHeight :: "number option"
  videoCrf :: "number option"
  videoAudioBitrateKbps :: "number option"

definition buildVideoCompressionProfile :: "number option \<Rightarrow> video_options \<Rightarrow> profile" where
  "buildVideoCompressionProfile durationSecs opts =
     (let baseHeight = clampNumber (number_or (videoMaxHeight opts) 480) 240 720;
          baseCrf = clampNumber (number_or (videoCrf opts) 30) 18 40;
          baseAudioBitrate = clampNumber (number_or (videoAudioBitrateKbps opts) 64) 32 192;
          duration = max 0 (number_or durationSecs 0)
      in if duration \<ge> 7200 then
           \<lparr>maxHeight = min baseHeight 240,
            crf = clampNumber (baseCrf + 2) 18 40,
            audioBitrateKbps = min baseAudioBitrate 48\<rparr>
         else if duration \<ge> 3600 then
           \<lparr>maxHeight = min baseHeight 360,
            crf = clampNumber (baseCrf + 1) 18 40,
            audioBitrateKbps = min baseAudioBitrate 56\<rparr>
         else if duration \<ge> 1800 then
           \<lparr>maxHeight = min baseHeight 480,
            crf = clampNumber (baseCrf + 1) 18 40,
            audioBitrateKbps = min baseAudioBitrate 64\<rparr>
         else
           \<lparr>maxHeight = baseHeight, crf = baseCrf, audioBitrateKbps = baseAudioBitrate\<rparr>)"

text \<open>\<open>null\<close> (no change) is \<open>None\<close>.\<close>

definition buildFallbackVideoCompressionProfile :: "profile \<Rightarrow> profile option" where
  "buildFallbackVideoCompressionProfile p =
     (let fallback = \<lparr>maxHeight = max 240 (min (maxHeight p) 360),
                      crf = clampNumber (crf p + 2) 18 40,
                      audioBitrateKbps = max 32 (min (audioBitrateKbps p) 48)\<rparr>;
          changed = (maxHeight fallback \<noteq> maxHeight p \<or>
                     crf fallback \<noteq> crf p \<or>
                     audioBitrateKbps fallback \<noteq> audioBitrateKbps p)
      in if changed then Some fallback else None)"

section \<open>downloader.js and utils.js: files, the transcoder, downloadVideo\<close>

text \<open>
  The download directory is a map from paths to sizes.  What the program does to the
  outside is recorded in a trace: every transcoder run with the settings it is given, every
  \<open>stat\<close>, every \<open>unlink\<close> and every warning.
\<close>

datatype action =
    RunFfmpeg path path number number number
  | Stat path
  | Unlink path
  | Warn path

record dstate =
  files :: "path \<rightharpoonup> nat"
  trace :: "action list"

text \<open>
  What the processes and the operating system answer.  \<open>raw_download\<close> is the
  outcome of \<open>downloadWithArgs\<close> (the yt-dlp run, with \<open>skipSizeValidation\<close>);
  \<open>ffmpeg_outcome n\<close> is the outcome of the \<open>n\<close>-th transcoder run, counted from
  0: it writes a file of some size, or it fails and may leave a partial file behind;
  \<open>stat_error n\<close> is the error of the \<open>n\<close>-th \<open>stat\<close>, if the system refuses
  it; \<open>unlink_error p\<close> is the error code with which the system refuses to remove
  \<open>p\<close>, if it does.
\<close>

datatype ffmpeg_result = FfmpegOk nat | FfmpegFail js_error "nat option"

record download_env =
  raw_download :: "js_error + media_result"
  ffmpeg_outcome :: "nat \<Rightarrow> ffmpeg_result"
  stat_error :: "nat \<Rightarrow> js_error option"
  unlink_error :: "path \<Rightarrow> string option"

definition record_action :: "action \<Rightarrow> dstate \<Rightarrow> dstate" where
  "record_action a s = s\<lparr>trace := trace s @ [a]\<rparr>"

text \<open>
  \<open>safeUnlink\<close>: nothing for a falsy path (\<open>null\<close> or the empty string); a
  missing file (\<open>ENOENT\<close>) is ignored, any other refusal is a warning, nothing is
  thrown.
\<close>

definition safeUnlink :: "download_env \<Rightarrow> path option \<Rightarrow> dstate \<Rightarrow> dstate" where
  "safeUnlink env fp s =
     (case fp of
        None \<Rightarrow> s
      | Some p \<Rightarrow>
          if p = [] then s
          else
            (let s1 = record_action (Unlink p) s
             in case unlink_error env p of
                  Some c \<Rightarrow> if c \<noteq> ''ENOENT'' then record_action (Warn p) s1 else s1
                | None \<Rightarrow> s1\<lparr>files := (files s1)(p := None)\<rparr>))"

text \<open>
  \<open>runFfmpeg\<close>: the settings are clamped again before they reach the command line;
  the promise resolves with nothing, or rejects.
\<close>

definition runFfmpeg ::
  "download_env \<Rightarrow> nat \<Rightarrow> path \<Rightarrow> path \<Rightarrow> profile \<Rightarrow> dstate \<Rightarrow> (js_error + unit) \<times> dstate" where
  "runFfmpeg env n inputPath outputPath p s =
     (let h = clampNumber (number_or (Some (maxHeight p)) 480) 240 720;
          c = clampNumber (number_or (Some (crf p)) 30) 18 40;
          a = clampNumber (number_or (Some (audioBitrateKbps p)) 64) 32 192;
          s1 = record_action (RunFfmpeg inputPath outputPath h c a) s
      in case ffmpeg_outcome env n of
           FfmpegOk sz \<Rightarrow> (Inr (), s1\<lparr>files := (files s1)(outputPath \<mapsto> sz)\<rparr>)
         | FfmpegFail e partial \<Rightarrow>
             (Inl e, case partial of None \<Rightarrow> s1
                     | Some sz \<Rightarrow> s1\<lparr>files := (files s1)(outputPath \<mapsto> sz)\<rparr>))"

text \<open>\<open>fs.promises.stat\<close>, of which only \<open>size\<close> is read.\<close>

definition stat :: "download_env \<Rightarrow> nat \<Rightarrow> path \<Rightarrow> dstate \<Rightarrow> (js_error + nat) \<times> dstate" where
  "stat env n p s =
     (let s1 = record_action (Stat p) s
      in case stat_error env n of
           Some e \<Rightarrow> (Inl e, s1)
         | None \<Rightarrow>
             (case files s1 p of
                None \<Rightarrow> (Inl \<lparr>cls = PlainError, code = Some ''ENOENT'', message = ''no such file''\<rparr>, s1)
              | Some sz \<Rightarrow> (Inr sz, s1)))"

text \<open>
  \<open>path.join(parsed.dir, parsed.name + '-wa.mp4')\<close>: the raw path without its last
  extension, then the suffix.  The raw file is always \<open>dir/base.ext\<close>.
\<close>

definition convertedPathOf :: "path \<Rightarrow> path" where
  "convertedPathOf raw =
     (let base = rev (takeWhile (\<lambda>c. c \<noteq> CHR ''/'') (rev raw));
          dir = take (length raw - length base) raw;
          name = (if CHR ''.'' \<in> set (tl base)
                  then rev (tl (dropWhile (\<lambda>c. c \<noteq> CHR ''.'') (rev base)))
                  else base)
      in dir @ name @ ''-wa.mp4'')"

text \<open>The last test of the \<open>try\<close> block: the size error, or the result.\<close>

definition check_final_size ::
  "download_env \<Rightarrow> video_options \<Rightarrow> path \<Rightarrow> nat \<Rightarrow> dstate \<Rightarrow> (js_error + media_result) \<times> dstate" where
  "check_final_size env opts convertedPath sz s =
     (if of_nat sz > maxFileSize opts
      then (Inl (new_DownloadError ''FILE_TOO_LARGE'' ''Arquivo acima do limite de tamanho permitido.''),
            safeUnlink env (Some convertedPath) s)
      else (Inr \<lparr>filePath = convertedPath, fileSize = sz\<rparr>, s))"

text \<open>The body of the \<open>try\<close> block of \<open>downloadVideo\<close>.\<close>

definition downloadVideo_try ::
  "download_env \<Rightarrow> video_options \<Rightarrow> profile \<Rightarrow> path \<Rightarrow> path \<Rightarrow> dstate
     \<Rightarrow> (js_error + media_result) \<times> dstate" where
  "downloadVideo_try env opts compressionProfile rawPath convertedPath s =
     (case runFfmpeg env 0 rawPath convertedPath compressionProfile s of
        (Inl e, s1) \<Rightarrow> (Inl e, s1)
      | (Inr _, s1) \<Rightarrow>
          (case stat env 0 convertedPath s1 of
             (Inl e, s2) \<Rightarrow> (Inl e, s2)
           | (Inr sz, s2) \<Rightarrow>
               if of_nat sz > maxFileSize opts then
                 (case buildFallbackVideoCompressionProfile compressionProfile of
                    Some fallbackProfile \<Rightarrow>
                      (let s3 = safeUnlink env (Some convertedPath) s2
                       in case runFfmpeg env 1 rawPath convertedPath fallbackProfile s3 of
                            (Inl e, s4) \<Rightarrow> (Inl e, s4)
                          | (Inr _, s4) \<Rightarrow>
                              (case stat env 1 convertedPath s4 of
                                 (Inl e, s5) \<Rightarrow> (Inl e, s5)
                               | (Inr sz2, s5) \<Rightarrow> check_final_size env opts convertedPath sz2 s5))
                  | None \<Rightarrow> check_final_size env opts convertedPath sz s2)
               else check_final_size env opts convertedPath sz s2))"

text \<open>
  \<open>downloadVideo\<close>: a failed download is rethrown before the \<open>try\<close> block is
  entered; after it, the \<open>finally\<close> block removes the raw file whatever the body did.
  Between the download and the \<open>try\<close> block stand \<open>detectFfmpegLocation\<close>,
  \<open>path.parse\<close> and \<open>path.join\<close>, which throw nothing.
\<close>

definition downloadVideo ::
  "download_env \<Rightarrow> candidate \<Rightarrow> video_options \<Rightarrow> dstate \<Rightarrow> (js_error + media_result) \<times> dstate" where
  "downloadVideo env video opts s =
     (let compressionProfile = buildVideoCompressionProfile (durationSeconds video) opts
      in case raw_download env of
           Inl e \<Rightarrow> (Inl e, s)
         | Inr rawResult \<Rightarrow>
             (let s0 = s\<lparr>files := (files s)(filePath rawResult \<mapsto> fileSize rawResult)\<rparr>;
                  convertedPath = convertedPathOf (filePath rawResult);
                  (r, s1) = downloadVideo_try env opts compressionProfile
                              (filePath rawResult) convertedPath s0
              in (r, safeUnlink env (Some (filePath rawResult)) s1)))"

text \<open>How many transcoder runs a trace holds.\<close>

fun is_RunFfmpeg :: "action \<Rightarrow> bool" where
  "is_RunFfmpeg (RunFfmpeg _ _ _ _ _) = True"
| "is_RunFfmpeg _ = False"

definition transcodes :: "action list \<Rightarrow> nat" where
  "transcodes l = length (filter is_RunFfmpeg l)"

section \<open>queue.js: DownloadQueue\<close>

text \<open>
  A task is a function of the caller.  Called, it either throws at once, or it returns
  a promise or a value, on which \<open>await\<close> suspends the caller until the task ends.
  The first argument names the task.
\<close>

datatype ('t, 'v) task = Starts 't | ThrowsAtCall 't 'v

text \<open>
  A job is a task with the promise \<open>add\<close> created for it.  Promises are numbered
  in the order of their creation, so the number of a job is also its place in the
  order of the calls of \<open>add\<close>.
\<close>

record ('t, 'v) job =
  task :: "('t, 'v) task"
  handle :: nat

text \<open>How a task that started ends, and what happens to a promise.\<close>

datatype 'v outcome = Returned 'v | Threw 'v

datatype 'v settlement = Resolved 'v | Rejected 'v

fun settle :: "'v outcome \<Rightarrow> 'v settlement" where
  "settle (Returned v) = Resolved v"
| "settle (Threw e) = Rejected e"

text \<open>
  \<open>items\<close> and \<open>running\<close> are the two fields of the class.  The rest is what the
  run-time holds: \<open>awaiting\<close> is the variable \<open>current\<close> of the call of
  \<open>process\<close> that is suspended at its \<open>await\<close>; \<open>executing\<close> lists the tasks
  that have started and have not ended; \<open>settled\<close> lists the promises in the order
  they were resolved or rejected; \<open>next_handle\<close> counts the promises created.
\<close>

record ('t, 'v) queue_state =
  items :: "('t, 'v) job list"
  running :: bool
  awaiting :: "('t, 'v) job option"
  executing :: "nat list"
  settled :: "(nat \<times> 'v settlement) list"
  next_handle :: nat

definition DownloadQueue :: "('t, 'v) queue_state" where
  "DownloadQueue = \<lparr>items = [], running = False, awaiting = None, executing = [],
                     settled = [], next_handle = 0\<rparr>"

text \<open>
  The \<open>while\<close> loop of \<open>process\<close>, from its head.  With an empty list the loop
  ends and \<open>running\<close> is reset.  Otherwise the first task is called: if it starts,
  the loop is suspended until that task ends; if it throws at the call, the \<open>catch\<close>
  block rejects its promise, the \<open>finally\<close> block shifts the list, and the loop
  goes on at once.
\<close>

function process_loop :: "('t, 'v) queue_state \<Rightarrow> ('t, 'v) queue_state" where
  "process_loop s =
     (case items s of
        [] \<Rightarrow> s\<lparr>running := False\<rparr>
      | current # _ \<Rightarrow>
          (case task current of
             Starts _ \<Rightarrow> s\<lparr>awaiting := Some current,
                             executing := executing s @ [handle current]\<rparr>
           | ThrowsAtCall _ e \<Rightarrow>
               process_loop (s\<lparr>settled := settled s @ [(handle current, Rejected e)],
                               items := tl (items s)\<rparr>)))"
  by pat_completeness auto
termination
  by (relation "measure (\<lambda>s. length (items s))") auto

declare process_loop.simps [simp del]

definition process :: "('t, 'v) queue_state \<Rightarrow> ('t, 'v) queue_state" where
  "process s = (if running s then s else process_loop (s\<lparr>running := True\<rparr>))"

record add_result =
  position :: nat
  promise :: nat

text \<open>The push of \<open>add\<close>: the new job goes to the end of the list.\<close>

definition push_job :: "('t, 'v) task \<Rightarrow> ('t, 'v) queue_state \<Rightarrow> ('t, 'v) queue_state" where
  "push_job t s =
     s\<lparr>items := items s @ [\<lparr>task = t, handle = next_handle s\<rparr>],
       next_handle := Suc (next_handle s)\<rparr>"

text \<open>\<open>push\<close> returns the new length; \<open>process\<close> is called before \<open>add\<close> returns.\<close>

definition add ::
  "('t, 'v) task \<Rightarrow> ('t, 'v) queue_state \<Rightarrow> add_result \<times> ('t, 'v) queue_state" where
  "add t s =
     (let h = next_handle s;
          s1 = push_job t s;
          pos = length (items s1);
          s2 = process s1
      in (\<lparr>position = pos, promise = h\<rparr>, s2))"

text \<open>
  The task with promise \<open>h\<close> ends.  If the loop is waiting for it, the loop goes on:
  the promise of \<open>current\<close> is resolved or rejected, the \<open>finally\<close> block shifts
  the list (nothing happens to an empty one), and the loop returns to its head.
\<close>

definition task_finished ::
  "nat \<Rightarrow> 'v outcome \<Rightarrow> ('t, 'v) queue_state \<Rightarrow> ('t, 'v) queue_state" where
  "task_finished h outc s =
     (if h \<in> set (executing s) then
        (let s0 = s\<lparr>executing := remove1 h (executing s)\<rparr>
         in case awaiting s0 of
              None \<Rightarrow> s0
            | Some current \<Rightarrow>
                if handle current = h then
                  (let s1 = s0\<lparr>awaiting := None,
                                settled := settled s0 @ [(handle current, settle outc)]\<rparr>;
                       s2 = s1\<lparr>items := tl (items s1)\<rparr>
                   in process_loop s2)
                else s0)
      else s)"

text \<open>What can happen to a queue: a call of \<open>add\<close>, or the end of a task.\<close>

datatype ('t, 'v) event = Add "('t, 'v) task" | Finished nat "'v outcome"

fun step :: "('t, 'v) event \<Rightarrow> ('t, 'v) queue_state \<Rightarrow> ('t, 'v) queue_state" where
  "step (Add t) s = snd (add t s)"
| "step (Finished h outc) s = task_finished h outc s"

definition run :: "('t, 'v) event list \<Rightarrow> ('t, 'v) queue_state" where
  "run evs = foldl (\<lambda>s e. step e s) DownloadQueue evs"

section \<open>config.js\<close>

text \<open>The environment variables read, each after \<open>Number(...)\<close>.\<close>

record env_vars =
  MAX_DURATION :: "number option"
  MAX_FILE_SIZE :: "number option"
  MAX_AUDIO_DURATION :: "number option"
  MAX_VIDEO_DURATION :: "number option"
  MAX_AUDIO_FILE_SIZE :: "number option"
  MAX_VIDEO_FILE_SIZE :: "number option"
  SELECTION_TIMEOUT_SECONDS :: "number option"

definition toPositiveNumber :: "number option \<Rightarrow> number \<Rightarrow> number" where
  "toPositiveNumber v fallback =
     (case v of None \<Rightarrow> fallback | Some parsed \<Rightarrow> if parsed \<le> 0 then fallback else parsed)"

record config =
  maxAudioDuration :: number
  maxVideoDuration :: number
  maxAudioFileSize :: number
  maxVideoFileSize :: number
  selectionTimeoutSeconds :: number

definition load_config :: "env_vars \<Rightarrow> config" where
  "load_config ev =
     (let legacyMaxDuration = toPositiveNumber (MAX_DURATION ev) 0;
          legacyMaxFileSize = toPositiveNumber (MAX_FILE_SIZE ev) (20 * 1024 * 1024)
      in \<lparr>maxAudioDuration =
             toPositiveNumber (MAX_AUDIO_DURATION ev)
               (if legacyMaxDuration = 0 then 1800 else legacyMaxDuration),
           maxVideoDuration = toPositiveNumber (MAX_VIDEO_DURATION ev) 1200,
           maxAudioFileSize = toPositiveNumber (MAX_AUDIO_FILE_SIZE ev) legacyMaxFileSize,
           maxVideoFileSize =
             toPositiveNumber (MAX_VIDEO_FILE_SIZE ev) (max legacyMaxFileSize (100 * 1024 * 1024)),
           selectionTimeoutSeconds = toPositiveNumber (SELECTION_TIMEOUT_SECONDS ev) 120\<rparr>)"

section \<open>index.js: the duration policy\<close>

record support =
  audio :: bool
  video :: bool

definition getVideoSupport :: "config \<Rightarrow> candidate \<Rightarrow> support" where
  "getVideoSupport cfg v =
     (let duration = number_or (durationSeconds v) 0
      in \<lparr>audio = (duration > 0 \<and> duration \<le> maxAudioDuration cfg),
          video = (duration > 0 \<and> duration \<le> maxVideoDuration cfg)\<rparr>)"

text \<open>Returning normally is \<open>Inr ()\<close>; each \<open>throw\<close> is an \<open>Inl\<close>.\<close>

definition assertDurationForMedia :: "config \<Rightarrow> candidate \<Rightarrow> media_type \<Rightarrow> js_error + unit" where
  "assertDurationForMedia cfg v mediaType =
     (let duration = number_or (durationSeconds v) 0;
          limit = (if mediaType = MEDIA_VIDEO then maxVideoDuration cfg else maxAudioDuration cfg)
      in if duration = 0 \<or> duration \<le> 0 then
           Inl (new_YoutubeError ''INVALID_DURATION''
                  ''Nao foi possivel determinar a duracao do video.'')
         else if duration > limit then
           Inl (new_YoutubeError
                  (if mediaType = MEDIA_VIDEO then ''VIDEO_DURATION_LIMIT''
                   else ''AUDIO_DURATION_LIMIT'')
                  ''Duracao acima do limite permitido.'')
         else Inr ())"

section \<open>index.js: pending selections\<close>

datatype selection_mode = search_results | playlist_tracks

record payload =
  mode :: selection_mode
  options :: "candidate list"
  defaultMediaType :: media_type

text \<open>The stored entry: the payload spread, and \<open>expiresAt\<close> in milliseconds.\<close>

record pending =
  pending_mode :: selection_mode
  pending_options :: "candidate list"
  pending_defaultMediaType :: media_type
  expiresAt :: number

type_synonym chat_id = string

type_synonym selections = "chat_id \<rightharpoonup> pending"

text \<open>\<open>Date.now()\<close> is the argument \<open>now\<close>.\<close>

definition setPendingSelection ::
  "config \<Rightarrow> number \<Rightarrow> chat_id \<Rightarrow> payload \<Rightarrow> selections \<Rightarrow> selections" where
  "setPendingSelection cfg now chatId p pendingSelections =
     pendingSelections(chatId \<mapsto>
       \<lparr>pending_mode = mode p, pending_options = options p,
        pending_defaultMediaType = defaultMediaType p,
        expiresAt = now + selectionTimeoutSeconds cfg * 1000\<rparr>)"

definition getPendingSelection ::
  "number \<Rightarrow> chat_id \<Rightarrow> selections \<Rightarrow> pending option \<times> selections" where
  "getPendingSelection now chatId pendingSelections =
     (case pendingSelections chatId of
        None \<Rightarrow> (None, pendingSelections)
      | Some p \<Rightarrow>
          if now > expiresAt p then (None, pendingSelections(chatId := None))
          else (Some p, pendingSelections))"

definition clearPendingSelection :: "chat_id \<Rightarrow> selections \<Rightarrow> selections" where
  "clearPendingSelection chatId pendingSelections = pendingSelections(chatId := None)"

section \<open>index.js: parsing a selection\<close>

text \<open>
  The character classes of the regular expressions, on code units below 256:
  \<open>\d\<close> is \<open>0-9\<close>, \<open>[a-z]\<close> the small ASCII letters, and \<open>\s\<close> (which is
  also what \<open>trim\<close> strips) is tab, line feed, vertical tab, form feed, carriage
  return, space and the no-break space.
\<close>

definition is_digit :: "char \<Rightarrow> bool" where
  "is_digit c = (let n = (of_char c :: nat) in 48 \<le> n \<and> n \<le> 57)"

definition is_az :: "char \<Rightarrow> bool" where
  "is_az c = (let n = (of_char c :: nat) in 97 \<le> n \<and> n \<le> 122)"

definition is_space :: "char \<Rightarrow> bool" where
  "is_space c = (let n = (of_char c :: nat) in (9 \<le> n \<and> n \<le> 13) \<or> n = 32 \<or> n = 160)"

text \<open>
  \<open>toLowerCase\<close> below 256: \<open>A-Z\<close>, and the capital letters of Latin-1
  (\<open>0xC0-0xD6\<close>, \<open>0xD8-0xDE\<close>), move up by 32; nothing else changes.
\<close>

definition toLowerCaseChar :: "char \<Rightarrow> char" where
  "toLowerCaseChar c =
     (let n = (of_char c :: nat)
      in if (65 \<le> n \<and> n \<le> 90) \<or> (192 \<le> n \<and> n \<le> 214) \<or> (216 \<le> n \<and> n \<le> 222)
         then char_of (n + 32) else c)"

definition toLowerCase :: "string \<Rightarrow> string" where
  "toLowerCase s = map toLowerCaseChar s"

definition trim :: "string \<Rightarrow> string" where
  "trim s = rev (dropWhile is_space (rev (dropWhile is_space s)))"

text \<open>\<open>Number\<close> of a string of decimal digits (exact: no rounding to a double).\<close>

definition digit_value :: "char \<Rightarrow> nat" where
  "digit_value c = of_char c - 48"

definition Number_of_digits :: "string \<Rightarrow> nat" where
  "Number_of_digits ds = foldl (\<lambda>acc c. 10 * acc + digit_value c) 0 ds"

definition normalizeMediaToken :: "string \<Rightarrow> media_type option" where
  "normalizeMediaToken token =
     (let v = toLowerCase token
      in if v = ''a'' \<or> v = ''audio'' then Some MEDIA_AUDIO
         else if v = ''v'' \<or> v = ''video'' then Some MEDIA_VIDEO
         else None)"

text \<open>
  The three anchored regular expressions.  Their classes are pairwise disjoint, so a
  match, when there is one, is the only way to cut the string, and the greedy cut
  finds it; the two groups are returned.

  \<^item> \<open>/^\d+$/\<close>
  \<^item> \<open>/^([a-z]+)\s*(\d+)$/\<close>
  \<^item> \<open>/^(\d+)\s*([a-z]+)$/\<close>
\<close>

definition test_digits :: "string \<Rightarrow> bool" where
  "test_digits v = (v \<noteq> [] \<and> list_all is_digit v)"

definition match_mediaFirst :: "string \<Rightarrow> (string \<times> string) option" where
  "match_mediaFirst v =
     (let letters = takeWhile is_az v;
          digits = dropWhile is_space (dropWhile is_az v)
      in if letters \<noteq> [] \<and> digits \<noteq> [] \<and> list_all is_digit digits
         then Some (letters, digits) else None)"

definition match_indexFirst :: "string \<Rightarrow> (string \<times> string) option" where
  "match_indexFirst v =
     (let digits = takeWhile is_digit v;
          letters = dropWhile is_space (dropWhile is_digit v)
      in if digits \<noteq> [] \<and> letters \<noteq> [] \<and> list_all is_az letters
         then Some (digits, letters) else None)"

section \<open>index.js: sending the finished file\<close>

text \<open>\<open>String.prototype.includes\<close>, by trying every position.\<close>

fun startsWith :: "string \<Rightarrow> string \<Rightarrow> bool" where
  "startsWith s [] = True"
| "startsWith [] (t # ts) = False"
| "startsWith (c # cs) (t # ts) = (c = t \<and> startsWith cs ts)"

fun includes_str :: "string \<Rightarrow> string \<Rightarrow> bool" where
  "includes_str [] t = (t = [])"
| "includes_str (c # cs) t = (startsWith (c # cs) t \<or> includes_str cs t)"

definition isWhatsAppSizeError :: "js_error \<Rightarrow> bool" where
  "isWhatsAppSizeError e =
     (let rawMessage = toLowerCase (message e)
      in includes_str rawMessage ''too large'' \<or>
         includes_str rawMessage ''media too big'' \<or>
         includes_str rawMessage ''413'')"

text \<open>
  \<open>mapPlayError\<close>.  How \<open>formatSeconds\<close> writes a number is not modelled: it is
  the argument \<open>fmt\<close>.
\<close>

definition mapPlayError :: "(number \<Rightarrow> string) \<Rightarrow> config \<Rightarrow> js_error \<Rightarrow> string" where
  "mapPlayError fmt cfg e =
     (if cls e = YoutubeError then
        (if code e = Some ''INVALID_URL'' then
           ''URL invalida. Envie um link valido do YouTube ou um termo de busca.''
         else if code e = Some ''NOT_FOUND'' then ''Nada encontrado para essa busca.''
         else if code e = Some ''DURATION_LIMIT'' then
           ''Duracao acima do limite de busca ('' @
             fmt (max (maxAudioDuration cfg) (maxVideoDuration cfg)) @ '').''
         else if code e = Some ''AUDIO_DURATION_LIMIT'' then
           ''Audio acima do limite de '' @ fmt (maxAudioDuration cfg) @ ''.''
         else if code e = Some ''VIDEO_DURATION_LIMIT'' then
           ''Video acima do limite de '' @ fmt (maxVideoDuration cfg) @
             ''. Escolha audio para esse item.''
         else if code e = Some ''PLAYLIST_NOT_FOUND'' then ''Playlist nao encontrada.''
         else if code e = Some ''PLAYLIST_NO_VALID_VIDEOS'' then
           ''Playlist sem faixas validas para os limites configurados.''
         else ''Falha ao consultar o YouTube.'')
      else if cls e = DownloadError then
        (if code e = Some ''YTDLP_NOT_FOUND'' then ''yt-dlp nao encontrado no servidor.''
         else if code e = Some ''FFMPEG_NOT_FOUND'' then ''ffmpeg nao encontrado no servidor.''
         else if code e = Some ''FFMPEG_ERROR'' then
           ''Falha ao converter o video para formato compativel do WhatsApp.''
         else if code e = Some ''FILE_TOO_LARGE'' then
           ''O arquivo final ficou muito grande para envio no WhatsApp.''
         else ''Erro ao baixar/converter midia com yt-dlp.'')
      else if code e = Some ''WHATSAPP_NOT_CONNECTED'' then
        ''WhatsApp temporariamente desconectado. Tente novamente em instantes.''
      else if code e = Some ''WHATSAPP_SEND_AUDIO_FAILED'' then
        ''Falha ao enviar o audio no WhatsApp.''
      else if code e = Some ''WHATSAPP_SEND_VIDEO_FAILED'' then
        ''Falha ao enviar o video no WhatsApp.''
      else ''Erro interno ao processar sua solicitacao.'')"

text \<open>
  The calls \<open>processSelectedMedia\<close> makes on the transport: the three kinds of text
  it sends with \<open>replyText\<close> (the line that announces the download, with title and
  duration text; the line that reports success; the line that reports a failure, with
  the text of \<open>mapPlayError\<close>), and the file it sends with \<open>replyVideo\<close> or
  \<open>replyAudio\<close> (path and title).
\<close>

datatype reply =
    Downloading media_type string string
  | SentOk media_type
  | Failure string
  | Media media_type path string

text \<open>
  What the collaborators answer: \<open>reply_error\<close> is the error a call on the
  transport throws, if it throws; \<open>download_outcome\<close> is the outcome of
  \<open>downloadVideo\<close> or \<open>downloadAudio\<close>.
\<close>

record media_env =
  reply_error :: "reply \<Rightarrow> js_error option"
  download_outcome :: "media_type \<Rightarrow> js_error + media_result"

text \<open>
  The \<open>try\<close> block: the error that leaves it, if one does, the value of
  \<open>outputFile\<close>, and the calls made.
\<close>

definition processSelectedMedia_try ::
  "media_env \<Rightarrow> candidate \<Rightarrow> media_type \<Rightarrow> js_error option \<times> path option \<times> reply list" where
  "processSelectedMedia_try env v mediaType =
     (if mediaType = MEDIA_VIDEO then
        (let m1 = Downloading MEDIA_VIDEO (title v) (durationText v)
         in case reply_error env m1 of
              Some e \<Rightarrow> (Some e, None, [m1])
            | None \<Rightarrow>
                (case download_outcome env MEDIA_VIDEO of
                   Inl e \<Rightarrow> (Some e, None, [m1])
                 | Inr downloadResult \<Rightarrow>
                     (let outputFile = filePath downloadResult;
                          m2 = Media MEDIA_VIDEO outputFile (title v)
                      in case reply_error env m2 of
                           Some sendError \<Rightarrow>
                             (if isWhatsAppSizeError sendError then
                                (Some (new_DownloadError ''FILE_TOO_LARGE''
                                         ''Arquivo excede o limite de envio do WhatsApp.''),
                                 Some outputFile, [m1, m2])
                              else
                                (Some (sendError\<lparr>code := Some ''WHATSAPP_SEND_VIDEO_FAILED''\<rparr>),
                                 Some outputFile, [m1, m2]))
                         | None \<Rightarrow>
                             (case reply_error env (SentOk MEDIA_VIDEO) of
                                Some e \<Rightarrow> (Some e, Some outputFile, [m1, m2, SentOk MEDIA_VIDEO])
                              | None \<Rightarrow> (None, Some outputFile, [m1, m2, SentOk MEDIA_VIDEO])))))
      else
        (let m1 = Downloading MEDIA_AUDIO (title v) (durationText v)
         in case reply_error env m1 of
              Some e \<Rightarrow> (Some e, None, [m1])
            | None \<Rightarrow>
                (case download_outcome env MEDIA_AUDIO of
                   Inl e \<Rightarrow> (Some e, None, [m1])
                 | Inr downloadResult \<Rightarrow>
                     (let outputFile = filePath downloadResult;
                          m2 = Media MEDIA_AUDIO outputFile (title v)
                      in case reply_error env m2 of
                           Some sendError \<Rightarrow>
                             (if isWhatsAppSizeError sendError then
                                (Some (new_DownloadError ''FILE_TOO_LARGE''
                                         ''Arquivo excede o limite de envio do WhatsApp.''),
                                 Some outputFile, [m1, m2])
                              else
                                (Some (sendError\<lparr>code := Some ''WHATSAPP_SEND_AUDIO_FAILED''\<rparr>),
                                 Some outputFile, [m1, m2]))
                         | None \<Rightarrow>
                             (case reply_error env (SentOk MEDIA_AUDIO) of
                                Some e \<Rightarrow> (Some e, Some outputFile, [m1, m2, SentOk MEDIA_AUDIO])
                              | None \<Rightarrow> (None, Some outputFile, [m1, m2, SentOk MEDIA_AUDIO]))))))"

text \<open>
  \<open>processSelectedMedia\<close>: \<open>caught\<close> is the error the \<open>catch\<close> block receives,
  \<open>rejection\<close> the error the returned promise rejects with (only the report in the
  \<open>catch\<close> block can cause one), \<open>calls\<close> the calls on the transport in order,
  and \<open>removed\<close> the argument of the \<open>safeUnlink\<close> of the \<open>finally\<close> block.
\<close>

record process_result =
  caught :: "js_error option"
  rejection :: "js_error option"
  calls :: "reply list"
  removed :: "path option"

definition processSelectedMedia ::
  "(number \<Rightarrow> string) \<Rightarrow> config \<Rightarrow> media_env \<Rightarrow> candidate \<Rightarrow> media_type \<Rightarrow> process_result" where
  "processSelectedMedia fmt cfg env v mediaType =
     (case processSelectedMedia_try env v mediaType of
        (None, outputFile, cs) \<Rightarrow>
          \<lparr>caught = None, rejection = None, calls = cs, removed = outputFile\<rparr>
      | (Some e, outputFile, cs) \<Rightarrow>
          \<lparr>caught = Some e,
           rejection = reply_error env (Failure (mapPlayError fmt cfg e)),
           calls = cs @ [Failure (mapPlayError fmt cfg e)],
           removed = outputFile\<rparr>)"

section \<open>index.js: parseSelectionChoice\<close>

record selection =
  index :: nat
  mediaType :: media_type

text \<open>\<open>null\<close> is \<open>None\<close>; the function throws nowhere.\<close>

definition parseSelectionChoice :: "string \<Rightarrow> media_type \<Rightarrow> selection option" where
  "parseSelectionChoice text dflt =
     (let v = toLowerCase (trim text)
      in if v = [] then None
         else if test_digits v then Some \<lparr>index = Number_of_digits v, mediaType = dflt\<rparr>
         else
           (case match_mediaFirst v of
              Some (g1, g2) \<Rightarrow>
                (case normalizeMediaToken g1 of
                   None \<Rightarrow> None
                 | Some m \<Rightarrow> Some \<lparr>index = Number_of_digits g2, mediaType = m\<rparr>)
            | None \<Rightarrow>
                (case match_indexFirst v of
                   Some (g1, g2) \<Rightarrow>
                     (case normalizeMediaToken g2 of
                        None \<Rightarrow> None
                      | Some m \<Rightarrow> Some \<lparr>index = Number_of_digits g1, mediaType = m\<rparr>)
                 | None \<Rightarrow> None)))"

section \<open>An invariant of the queue\<close>

text \<open>
  What holds of a queue after any sequence of events: the loop is suspended exactly
  when \<open>running\<close> is set; the job it waits for is the head of \<open>items\<close> and the
  only task executing; the promises settled, followed by those of the jobs still
  listed, are all the promises in the order of their creation.
\<close>

definition queue_inv :: "('t, 'v) queue_state \<Rightarrow> bool" where
  "queue_inv s =
     ((running s \<longleftrightarrow> awaiting s \<noteq> None) \<and>
      (case awaiting s of
         None \<Rightarrow> items s = [] \<and> executing s = []
       | Some c \<Rightarrow> items s \<noteq> [] \<and> hd (items s) = c \<and> executing s = [handle c]) \<and>
      map fst (settled s) @ map handle (items s) = [0..<next_handle s])"

section \<open>Concrete inputs\<close>

definition opts_default :: video_options where
  "opts_default = \<lparr>maxFileSize = 1000, videoMaxHeight = None, videoCrf = None,
                   videoAudioBitrateKbps = None\<rparr>"

definition opts_floor :: video_options where
  "opts_floor = \<lparr>maxFileSize = 1000, videoMaxHeight = Some 240, videoCrf = Some 40,
                 videoAudioBitrateKbps = Some 32\<rparr>"

definition clip :: candidate where
  "clip = \<lparr>kind = kind_video, title = ''clip'', url = ''https://youtu.be/x'',
           durationSeconds = Some 100, durationText = ''01:40''\<rparr>"

definition raw_clip :: media_result where
  "raw_clip = \<lparr>filePath = ''/d/clip-1.webm'', fileSize = 5000\<rparr>"

text \<open>Every transcoder run writes 500 bytes; nothing is refused.\<close>

definition env_small :: download_env where
  "env_small = \<lparr>raw_download = Inr raw_clip,
                ffmpeg_outcome = (\<lambda>n. FfmpegOk 500),
                stat_error = (\<lambda>n. None),
                unlink_error = (\<lambda>p. None)\<rparr>"

text \<open>Every transcoder run writes 2000 bytes; nothing is refused.\<close>

definition env_big :: download_env where
  "env_big = \<lparr>raw_download = Inr raw_clip,
              ffmpeg_outcome = (\<lambda>n. FfmpegOk 2000),
              stat_error = (\<lambda>n. None),
              unlink_error = (\<lambda>p. None)\<rparr>"

text \<open>The transcoder fails at once and leaves a partial file.\<close>

definition env_ffmpeg_fails :: download_env where
  "env_ffmpeg_fails =
     \<lparr>raw_download = Inr raw_clip,
      ffmpeg_outcome = (\<lambda>n. FfmpegFail (new_DownloadError ''FFMPEG_ERROR''
                                ''Falha na conversao de video para formato compativel.'') (Some 10)),
      stat_error = (\<lambda>n. None),
      unlink_error = (\<lambda>p. None)\<rparr>"

definition dstate0 :: dstate where
  "dstate0 = \<lparr>files = Map.empty, trace = []\<rparr>"

definition events_abc :: "(string, string) event list" where
  "events_abc = [Add (Starts ''a''), Add (Starts ''b''), Add (ThrowsAtCall ''c'' ''w''),
                 Finished 0 (Threw ''x''), Add (Starts ''d''),
                 Finished 1 (Returned ''y''), Finished 3 (Threw ''z'')]"

text \<open>No variable is set: every limit has its default.\<close>

definition env_unset :: env_vars where
  "env_unset = \<lparr>MAX_DURATION = None, MAX_FILE_SIZE = None, MAX_AUDIO_DURATION = None,
                 MAX_VIDEO_DURATION = None, MAX_AUDIO_FILE_SIZE = None,
                 MAX_VIDEO_FILE_SIZE = None, SELECTION_TIMEOUT_SECONDS = None\<rparr>"

definition entry_100 :: pending where
  "entry_100 = \<lparr>pending_mode = search_results, pending_options = [clip],
                 pending_defaultMediaType = MEDIA_AUDIO, expiresAt = 100\<rparr>"

text \<open>The transport refuses the file, with a size message and with another one.\<close>

definition env_send_413 :: media_env where
  "env_send_413 =
     \<lparr>reply_error = (\<lambda>r. case r of
          Media _ _ _ \<Rightarrow> Some \<lparr>cls = PlainError, code = None,
                                message = ''Request failed: 413 Payload''\<rparr>
        | _ \<Rightarrow> None),
      download_outcome = (\<lambda>_. Inr \<lparr>filePath = ''/d/clip-1-wa.mp4'', fileSize = 10\<rparr>)\<rparr>"

definition env_send_timeout :: media_env where
  "env_send_timeout =
     \<lparr>reply_error = (\<lambda>r. case r of
          Media _ _ _ \<Rightarrow> Some \<lparr>cls = PlainError, code = None, message = ''Timed Out''\<rparr>
        | _ \<Rightarrow> None),
      download_outcome = (\<lambda>_. Inr \<lparr>filePath = ''/d/clip-1-wa.mp4'', fileSize = 10\<rparr>)\<rparr>"

section \<open>The compression fallback\<close>

lemma build_bounds:
  "240 \<le> maxHeight (buildVideoCompressionProfile d opts)"
  "18 \<le> crf (buildVideoCompressionProfile d opts)"
  "crf (buildVideoCompressionProfile d opts) \<le> 40"
  "32 \<le> audioBitrateKbps (buildVideoCompressionProfile d opts)"
  by (auto simp: buildVideoCompressionProfile_def clampNumber_def Let_def)

lemma fallback_Some:
  assumes "buildFallbackVideoCompressionProfile p = Some f"
    and "240 \<le> maxHeight p" "18 \<le> crf p" "crf p \<le> 40" "32 \<le> audioBitrateKbps p"
  shows "maxHeight f \<le> maxHeight p \<and> crf p \<le> crf f \<and> audioBitrateKbps f \<le> audioBitrateKbps p \<and>
         (maxHeight f \<noteq> maxHeight p \<or> crf f \<noteq> crf p \<or> audioBitrateKbps f \<noteq> audioBitrateKbps p)"
  using assms
  by (auto simp: buildFallbackVideoCompressionProfile_def clampNumber_def Let_def split: if_splits)

lemma transcodes_simps:
  "transcodes [] = 0"
  "transcodes (a # l) = (if is_RunFfmpeg a then 1 else 0) + transcodes l"
  "transcodes (xs @ ys) = transcodes xs + transcodes ys"
  by (simp_all add: transcodes_def)

lemma transcodes_safeUnlink: "transcodes (trace (safeUnlink env fp s)) = transcodes (trace s)"
  by (auto simp: safeUnlink_def record_action_def transcodes_def Let_def split: option.splits)

lemma downloadVideo_no_fallback:
  assumes "buildFallbackVideoCompressionProfile
             (buildVideoCompressionProfile (durationSeconds v) opts) = None"
    and "raw_download env = Inr rawResult"
    and "ffmpeg_outcome env 0 = FfmpegOk sz"
    and "stat_error env 0 = None"
    and "of_nat sz > maxFileSize opts"
  shows "fst (downloadVideo env v opts s) =
           Inl (new_DownloadError ''FILE_TOO_LARGE'' ''Arquivo acima do limite de tamanho permitido.'')
         \<and> transcodes (trace (snd (downloadVideo env v opts s))) = transcodes (trace s) + 1"
  using assms
  by (simp add: downloadVideo_def downloadVideo_try_def runFfmpeg_def stat_def check_final_size_def
        record_action_def Let_def transcodes_safeUnlink transcodes_simps split: prod.splits)

text \<open>
  C1.  Whatever the duration and the options, the profile that
  \<open>buildVideoCompressionProfile\<close> returns has, when
  \<open>buildFallbackVideoCompressionProfile\<close> returns a fallback for it, a fallback of
  at most the same height, at least the same CRF and at most the same audio bitrate,
  different from it in one of the three at least.  When no fallback is returned and
  the first transcoded file is larger than \<open>maxFileSize\<close>, \<open>downloadVideo\<close>
  fails with \<open>FILE_TOO_LARGE\<close> after exactly one run of the transcoder.
\<close>

theorem fallback_profile_more_aggressive:
  "(\<forall>f. buildFallbackVideoCompressionProfile (buildVideoCompressionProfile d opts) = Some f \<longrightarrow>
        maxHeight f \<le> maxHeight (buildVideoCompressionProfile d opts) \<and>
        crf (buildVideoCompressionProfile d opts) \<le> crf f \<and>
        audioBitrateKbps f \<le> audioBitrateKbps (buildVideoCompressionProfile d opts) \<and>
        (maxHeight f \<noteq> maxHeight (buildVideoCompressionProfile d opts) \<or>
         crf f \<noteq> crf (buildVideoCompressionProfile d opts) \<or>
         audioBitrateKbps f \<noteq> audioBitrateKbps (buildVideoCompressionProfile d opts)))
   \<and>
   (buildFallbackVideoCompressionProfile (buildVideoCompressionProfile (durationSeconds v) opts) = None \<and>
    raw_download env = Inr rawResult \<and> ffmpeg_outcome env 0 = FfmpegOk sz \<and>
    stat_error env 0 = None \<and> of_nat sz > maxFileSize opts \<longrightarrow>
      fst (downloadVideo env v opts s) =
        Inl (new_DownloadError ''FILE_TOO_LARGE'' ''Arquivo acima do limite de tamanho permitido.'') \<and>
      transcodes (trace (snd (downloadVideo env v opts s))) = transcodes (trace s) + 1)"
  using fallback_Some[OF _ build_bounds, of d opts] downloadVideo_no_fallback[of v opts env rawResult sz s]
  by blast

lemma build_default: "buildVideoCompressionProfile (Some 100) opts_default = \<lparr>maxHeight = 480, crf = 30, audioBitrateKbps = 64\<rparr>"
  by (simp add: buildVideoCompressionProfile_def opts_default_def clampNumber_def number_or_def Let_def)

lemma build_floor: "buildVideoCompressionProfile (Some 100) opts_floor = \<lparr>maxHeight = 240, crf = 40, audioBitrateKbps = 32\<rparr>"
  by (simp add: buildVideoCompressionProfile_def opts_floor_def clampNumber_def number_or_def Let_def)

lemma fb_default: "buildFallbackVideoCompressionProfile \<lparr>maxHeight = 480, crf = 30, audioBitrateKbps = 64\<rparr> = Some \<lparr>maxHeight = 360, crf = 32, audioBitrateKbps = 48\<rparr>"
  by (simp add: buildFallbackVideoCompressionProfile_def clampNumber_def Let_def)

lemma fb_floor: "buildFallbackVideoCompressionProfile \<lparr>maxHeight = 240, crf = 40, audioBitrateKbps = 32\<rparr> = None"
  by (simp add: buildFallbackVideoCompressionProfile_def clampNumber_def Let_def)

theorem fallback_profile_more_aggressive_witness:
  "buildFallbackVideoCompressionProfile (buildVideoCompressionProfile (Some 100) opts_default) =
     Some \<lparr>maxHeight = 360, crf = 32, audioBitrateKbps = 48\<rparr> \<and>
   (360::rat) \<le> maxHeight (buildVideoCompressionProfile (Some 100) opts_default) \<and>
   crf (buildVideoCompressionProfile (Some 100) opts_default) \<le> (32::rat) \<and>
   buildFallbackVideoCompressionProfile (buildVideoCompressionProfile (durationSeconds clip) opts_floor) = None \<and>
   raw_download env_big = Inr raw_clip \<and>
   ffmpeg_outcome env_big 0 = FfmpegOk 2000 \<and> stat_error env_big 0 = None \<and>
   of_nat 2000 > maxFileSize opts_floor \<and>
   fst (downloadVideo env_big clip opts_floor dstate0) =
     Inl (new_DownloadError ''FILE_TOO_LARGE'' ''Arquivo acima do limite de tamanho permitido.'') \<and>
   transcodes (trace (snd (downloadVideo env_big clip opts_floor dstate0))) = 1"
proof -
  have a: "buildFallbackVideoCompressionProfile (buildVideoCompressionProfile (Some 100) opts_default) =
     Some \<lparr>maxHeight = 360, crf = 32, audioBitrateKbps = 48\<rparr>"
    by (simp add: build_default fb_default)
  have b: "buildFallbackVideoCompressionProfile (buildVideoCompressionProfile (durationSeconds clip) opts_floor) = None"
    by (simp add: clip_def build_floor fb_floor)
  have c: "raw_download env_big = Inr raw_clip"
    "ffmpeg_outcome env_big 0 = FfmpegOk 2000" "stat_error env_big 0 = None"
    "of_nat 2000 > maxFileSize opts_floor"
    by (simp_all add: env_big_def opts_floor_def)
  have t0: "transcodes (trace dstate0) = 0" by (simp add: dstate0_def transcodes_def)
  note w1 = fallback_profile_more_aggressive[where d = "Some 100" and opts = opts_default]
  note w2 = fallback_profile_more_aggressive[where v = clip and opts = opts_floor and env = env_big
      and rawResult = raw_clip and sz = 2000
      and s = dstate0]
  from w1 a have "(360::rat) \<le> maxHeight (buildVideoCompressionProfile (Some 100) opts_default) \<and>
      crf (buildVideoCompressionProfile (Some 100) opts_default) \<le> (32::rat)"
    by simp
  moreover from w2 b c t0 have "fst (downloadVideo env_big clip opts_floor dstate0) =
     Inl (new_DownloadError ''FILE_TOO_LARGE'' ''Arquivo acima do limite de tamanho permitido.'') \<and>
   transcodes (trace (snd (downloadVideo env_big clip opts_floor dstate0))) = 1"
    by simp
  ultimately show ?thesis using a b c by simp
qed

section \<open>The raw file\<close>

lemma safeUnlink_removes:
  assumes "p \<noteq> []"
  shows "(trace (safeUnlink env (Some p) s) = trace s @ [Unlink p]
            \<or> trace (safeUnlink env (Some p) s) = trace s @ [Unlink p, Warn p])
         \<and> (unlink_error env p = None \<longrightarrow> files (safeUnlink env (Some p) s) p = None)"
  using assms by (auto simp: safeUnlink_def record_action_def Let_def split: option.splits)

lemma trace_safeUnlink: "prefix (trace s) (trace (safeUnlink env fp s))"
  by (auto simp: safeUnlink_def record_action_def Let_def split: option.splits)

lemma trace_runFfmpeg: "runFfmpeg env n i out p s = (r, s') \<Longrightarrow> prefix (trace s) (trace s')"
  by (auto simp: runFfmpeg_def record_action_def Let_def split: option.splits ffmpeg_result.splits)

lemma trace_stat: "stat env n p s = (r, s') \<Longrightarrow> prefix (trace s) (trace s')"
  by (auto simp: stat_def record_action_def Let_def split: option.splits)

lemma trace_check: "check_final_size env opts c sz s = (r, s') \<Longrightarrow> prefix (trace s) (trace s')"
  using trace_safeUnlink[of s env "Some c"] by (auto simp: check_final_size_def split: if_splits)

lemma trace_try:
  assumes "downloadVideo_try env opts pr raw conv s = (r, s')"
  shows "prefix (trace s) (trace s')"
  using assms unfolding downloadVideo_try_def Let_def
  apply (auto split: prod.splits sum.splits option.splits if_splits
      dest!: trace_runFfmpeg trace_stat trace_check)
   apply (meson trace_safeUnlink prefix_order.trans)+
  done

lemma converted_clip: "convertedPathOf ''/d/clip-1.webm'' = ''/d/clip-1-wa.mp4''"
  by (simp add: convertedPathOf_def)

lemma download_results:
  "fst (downloadVideo env_small clip opts_default dstate0) =
     Inr \<lparr>filePath = ''/d/clip-1-wa.mp4'', fileSize = 500\<rparr>"
  "fst (downloadVideo env_big clip opts_default dstate0) =
     Inl (new_DownloadError ''FILE_TOO_LARGE'' ''Arquivo acima do limite de tamanho permitido.'')"
  "fst (downloadVideo env_ffmpeg_fails clip opts_default dstate0) =
     Inl (new_DownloadError ''FFMPEG_ERROR''
            ''Falha na conversao de video para formato compativel.'')"
  "trace (snd (downloadVideo env_big clip opts_default dstate0)) =
    [RunFfmpeg ''/d/clip-1.webm'' ''/d/clip-1-wa.mp4'' 480 30 64,
     Stat ''/d/clip-1-wa.mp4'', Unlink ''/d/clip-1-wa.mp4'',
     RunFfmpeg ''/d/clip-1.webm'' ''/d/clip-1-wa.mp4'' 360 32 48,
     Stat ''/d/clip-1-wa.mp4'', Unlink ''/d/clip-1-wa.mp4'',
     Unlink ''/d/clip-1.webm'']"
  by (simp_all add: downloadVideo_def downloadVideo_try_def runFfmpeg_def stat_def
      check_final_size_def record_action_def safeUnlink_def env_small_def env_big_def
      env_ffmpeg_fails_def raw_clip_def opts_default_def dstate0_def clip_def converted_clip
      buildVideoCompressionProfile_def buildFallbackVideoCompressionProfile_def
      clampNumber_def number_or_def Let_def)

text \<open>
  C6.  Once \<open>downloadWithArgs\<close> has returned the raw file, every way out of
  \<open>downloadVideo\<close> (a result, after one transcode or two, or any error of the
  transcoder, of \<open>stat\<close> or of the size test) ends with \<open>safeUnlink\<close> of the raw
  path: it is the last call made, followed at most by the warning \<open>safeUnlink\<close>
  prints when the system refuses, and unless the system refuses the raw file is gone.
\<close>

theorem raw_file_removed_on_every_exit:
  assumes "raw_download env = Inr rawResult" and "filePath rawResult \<noteq> []"
  shows "(\<exists>pre. trace (snd (downloadVideo env v opts s)) =
                  trace s @ pre @ [Unlink (filePath rawResult)]
            \<or> trace (snd (downloadVideo env v opts s)) =
                  trace s @ pre @ [Unlink (filePath rawResult), Warn (filePath rawResult)])
         \<and> (unlink_error env (filePath rawResult) = None \<longrightarrow>
                files (snd (downloadVideo env v opts s)) (filePath rawResult) = None)"
proof -
  define s0 where "s0 = s\<lparr>files := (files s)(filePath rawResult \<mapsto> fileSize rawResult)\<rparr>"
  obtain r s1 where t: "downloadVideo_try env opts
      (buildVideoCompressionProfile (durationSeconds v) opts)
      (filePath rawResult) (convertedPathOf (filePath rawResult)) s0 = (r, s1)"
    by (cases "downloadVideo_try env opts
      (buildVideoCompressionProfile (durationSeconds v) opts)
      (filePath rawResult) (convertedPathOf (filePath rawResult)) s0") blast
  have dv: "snd (downloadVideo env v opts s) = safeUnlink env (Some (filePath rawResult)) s1"
    using assms(1) t by (simp add: downloadVideo_def Let_def s0_def)
  have "prefix (trace s0) (trace s1)" by (rule trace_try[OF t])
  then obtain l where l: "trace s1 = trace s @ l"
    by (auto simp: prefix_def s0_def)
  from safeUnlink_removes[OF assms(2), of env s1] l show ?thesis
    unfolding dv by auto
qed


theorem raw_file_removed_on_every_exit_witness:
  "fst (downloadVideo env_small clip opts_default dstate0) =
     Inr \<lparr>filePath = ''/d/clip-1-wa.mp4'', fileSize = 500\<rparr> \<and>
   files (snd (downloadVideo env_small clip opts_default dstate0)) ''/d/clip-1.webm'' = None \<and>
   fst (downloadVideo env_big clip opts_default dstate0) =
     Inl (new_DownloadError ''FILE_TOO_LARGE'' ''Arquivo acima do limite de tamanho permitido.'') \<and>
   transcodes (trace (snd (downloadVideo env_big clip opts_default dstate0))) = 2 \<and>
   files (snd (downloadVideo env_big clip opts_default dstate0)) ''/d/clip-1.webm'' = None \<and>
   fst (downloadVideo env_ffmpeg_fails clip opts_default dstate0) =
     Inl (new_DownloadError ''FFMPEG_ERROR''
            ''Falha na conversao de video para formato compativel.'') \<and>
   files (snd (downloadVideo env_ffmpeg_fails clip opts_default dstate0)) ''/d/clip-1.webm'' = None"
proof -
  have h: "raw_download env_small = Inr raw_clip" "raw_download env_big = Inr raw_clip"
    "raw_download env_ffmpeg_fails = Inr raw_clip" "filePath raw_clip \<noteq> []"
    "unlink_error env_small (filePath raw_clip) = None"
    "unlink_error env_big (filePath raw_clip) = None"
    "unlink_error env_ffmpeg_fails (filePath raw_clip) = None"
    and p: "filePath raw_clip = ''/d/clip-1.webm''"
    by (simp_all add: env_small_def env_big_def env_ffmpeg_fails_def raw_clip_def)
  note t = raw_file_removed_on_every_exit
  from t[OF h(1) h(4), of clip opts_default dstate0] h(5)
  have 1: "files (snd (downloadVideo env_small clip opts_default dstate0)) ''/d/clip-1.webm'' = None"
    unfolding p by blast
  from t[OF h(2) h(4), of clip opts_default dstate0] h(6)
  have 2: "files (snd (downloadVideo env_big clip opts_default dstate0)) ''/d/clip-1.webm'' = None"
    unfolding p by blast
  from t[OF h(3) h(4), of clip opts_default dstate0] h(7)
  have 3: "files (snd (downloadVideo env_ffmpeg_fails clip opts_default dstate0)) ''/d/clip-1.webm'' = None"
    unfolding p by blast
  have 4: "transcodes (trace (snd (downloadVideo env_big clip opts_default dstate0))) = 2"
    by (simp add: download_results(4) transcodes_def)
  from 1 2 3 4 download_results(1-3) show ?thesis by blast
qed

section \<open>The queue\<close>

lemma inv_init: "queue_inv DownloadQueue"
  by (simp add: queue_inv_def DownloadQueue_def)

text \<open>At the head of the loop nothing is awaited and nothing executes.\<close>

lemma inv_process_loop:
  assumes "running s" and "awaiting s = None" and "executing s = []"
    and "map fst (settled s) @ map handle (items s) = [0..<next_handle s]"
  shows "queue_inv (process_loop s)"
  using assms
proof (induction s rule: process_loop.induct)
  case (1 s)
  show ?case
  proof (cases "items s")
    case Nil
    with 1(2-) show ?thesis by (simp add: process_loop.simps[of s] queue_inv_def)
  next
    case (Cons current rest)
    show ?thesis
    proof (cases "task current")
      case (Starts n)
      with Cons 1(2-) show ?thesis by (simp add: process_loop.simps[of s] queue_inv_def)
    next
      case (ThrowsAtCall n e)
      have "queue_inv (process_loop (s\<lparr>settled := settled s @ [(handle current, Rejected e)],
                               items := tl (items s)\<rparr>))"
        using 1(2-) Cons by (intro "1.IH"[OF Cons ThrowsAtCall]) simp_all
      with Cons ThrowsAtCall show ?thesis by (simp add: process_loop.simps[of s])
    qed
  qed
qed

lemma inv_add: 
  assumes "queue_inv s"
  shows "queue_inv (snd (add t s))"
proof (cases "running s")
  case True
  with assms show ?thesis
    by (auto simp: queue_inv_def add_def push_job_def process_def Let_def split: option.splits)
next
  case False
  with assms have "awaiting s = None" "items s = []" "executing s = []"
    "map fst (settled s) = [0..<next_handle s]"
    by (auto simp: queue_inv_def split: option.splits)
  then have "queue_inv (process_loop ((push_job t s)\<lparr>running := True\<rparr>))"
    by (intro inv_process_loop) (simp_all add: push_job_def)
  with False show ?thesis by (simp add: add_def process_def push_job_def Let_def)
qed

lemma inv_finished:
  assumes "queue_inv s"
  shows "queue_inv (task_finished h outc s)"
proof (cases "h \<in> set (executing s)")
  case False
  then show ?thesis using assms by (simp add: task_finished_def)
next
  case True
  with assms obtain c rest where c: "awaiting s = Some c" "items s = c # rest"
      "executing s = [handle c]" "h = handle c" "running s"
      "map fst (settled s) @ handle c # map handle rest = [0..<next_handle s]"
    by (cases "awaiting s"; cases "items s") (auto simp: queue_inv_def)
  let ?s2 = "s\<lparr>executing := [], awaiting := None,
               settled := settled s @ [(handle c, settle outc)], items := rest\<rparr>"
  have "queue_inv (process_loop ?s2)"
    using c by (intro inv_process_loop) simp_all
  moreover have "task_finished h outc s = process_loop ?s2"
    using c by (simp add: task_finished_def Let_def)
  ultimately show ?thesis by simp
qed

lemma inv_step: "queue_inv s \<Longrightarrow> queue_inv (step e s)"
  by (cases e) (simp_all add: inv_add inv_finished)

lemma inv_foldl: "queue_inv s \<Longrightarrow> queue_inv (foldl (\<lambda>s e. step e s) s evs)"
  by (induction evs arbitrary: s) (simp_all add: inv_step)

lemma inv_run: "queue_inv (run evs)"
  unfolding run_def by (rule inv_foldl[OF inv_init])

lemma inv_executing: "queue_inv s \<Longrightarrow> length (executing s) \<le> 1"
  by (auto simp: queue_inv_def split: option.splits)

lemma inv_order: "queue_inv s \<Longrightarrow> map fst (settled s) @ map handle (items s) = [0..<next_handle s]"
  by (simp add: queue_inv_def)

lemma inv_idle: "queue_inv s \<Longrightarrow> executing s = [] \<Longrightarrow> items s = []"
  by (auto simp: queue_inv_def split: option.splits)

text \<open>
  C2.  After any sequence of calls of \<open>add\<close> and ends of tasks, at most one task is
  executing, and the promises settled so far, followed by those of the jobs still in
  the list, are the promises in the order of the calls of \<open>add\<close>: promises settle
  in the order of enqueueing, whether the tasks return or throw.  When no task is
  executing, every promise has settled.
\<close>

theorem queue_one_at_a_time_fifo:
  "length (executing (run evs)) \<le> 1 \<and>
   map fst (settled (run evs)) @ map handle (items (run evs)) = [0..<next_handle (run evs)] \<and>
   (executing (run evs) = [] \<longrightarrow> map fst (settled (run evs)) = [0..<next_handle (run evs)])"
  using inv_executing[OF inv_run, of evs] inv_order[OF inv_run, of evs] inv_idle[OF inv_run, of evs]
  by auto

lemma run_abc:
  "run events_abc = \<lparr>items = [], running = False, awaiting = None, executing = [],
      settled = [(0, Rejected ''x''), (1, Resolved ''y''), (2, Rejected ''w''), (3, Rejected ''z'')],
      next_handle = 4\<rparr>"
  by (simp add: run_def events_abc_def DownloadQueue_def add_def push_job_def process_def
      task_finished_def process_loop.simps Let_def)

theorem queue_one_at_a_time_fifo_witness:
  "executing (run events_abc) = [] \<and>
   settled (run events_abc) =
     [(0, Rejected ''x''), (1, Resolved ''y''), (2, Rejected ''w''), (3, Rejected ''z'')] \<and>
   map fst (settled (run events_abc)) = [0..<next_handle (run events_abc)]"
  using queue_one_at_a_time_fifo[of events_abc] by (simp add: run_abc)


lemma inv_handles_lt:
  assumes "queue_inv s"
  shows "h \<in> fst ` set (settled s) \<Longrightarrow> h < next_handle s"
    and "h \<in> set (executing s) \<Longrightarrow> h < next_handle s"
proof -
  have all: "set (map fst (settled s) @ map handle (items s)) = {0..<next_handle s}"
    using assms by (simp add: queue_inv_def)
  show "h \<in> fst ` set (settled s) \<Longrightarrow> h < next_handle s"
  proof -
    assume "h \<in> fst ` set (settled s)"
    then have "h \<in> set (map fst (settled s) @ map handle (items s))" by auto
    with all show ?thesis by auto
  qed
  show "h \<in> set (executing s) \<Longrightarrow> h < next_handle s"
  proof -
    assume "h \<in> set (executing s)"
    with assms obtain c where "h = handle c" "c \<in> set (items s)"
      by (cases "awaiting s"; cases "items s") (auto simp: queue_inv_def)
    then have "h \<in> set (map fst (settled s) @ map handle (items s))" by auto
    with all show ?thesis by auto
  qed
qed

lemma add_position: "position (fst (add t s)) = length (items s) + 1"
  by (simp add: add_def push_job_def Let_def)

lemma add_promise: "promise (fst (add t s)) = next_handle s"
  by (simp add: add_def Let_def)

lemma push_job_nth: "items (push_job t s) ! length (items s) = \<lparr>task = t, handle = next_handle s\<rparr>"
  by (simp add: push_job_def)

lemma add_busy: "running s \<Longrightarrow> snd (add t s) = push_job t s"
  by (simp add: add_def process_def push_job_def Let_def)

lemma add_idle_starts:
  assumes "queue_inv s" and "\<not> running s"
  shows "snd (add (Starts n) s) =
           (push_job (Starts n) s)\<lparr>running := True,
              awaiting := Some \<lparr>task = Starts n, handle = next_handle s\<rparr>,
              executing := [next_handle s]\<rparr>"
proof -
  from assms have "items s = []" "executing s = []"
    by (auto simp: queue_inv_def split: option.splits)
  then show ?thesis
    using assms(2) by (simp add: add_def process_def push_job_def process_loop.simps Let_def)
qed

lemma add_idle_throws:
  assumes "queue_inv s" and "\<not> running s"
  shows "settled (snd (add (ThrowsAtCall n e) s)) = settled s @ [(next_handle s, Rejected e)]"
proof -
  from assms have "items s = []"
    by (auto simp: queue_inv_def split: option.splits)
  then show ?thesis
    using assms(2) by (simp add: add_def process_def push_job_def process_loop.simps Let_def)
qed

text \<open>
  C7.  \<open>add\<close> returns the length of the list after the push, which is
  the 1-based place of the new job in the list at that instant, itself counted.  If a
  job is running, the new task has not been called when \<open>add\<close> returns, and its
  promise has not settled.  If none is running, \<open>process\<close> calls the new task
  inside \<open>add\<close>: when \<open>add\<close> returns the task is executing, or it threw at the
  call and its promise is rejected.  A second \<open>add\<close> right after the first returns
  one more, unless the first job is already done.
\<close>

theorem add_returns_position:
  "position (fst (add t (run evs))) = length (items (run evs)) + 1 \<and>
   items (push_job t (run evs)) ! (position (fst (add t (run evs))) - 1) =
     \<lparr>task = t, handle = promise (fst (add t (run evs)))\<rparr> \<and>
   (running (run evs) \<longrightarrow>
      position (fst (add t' (snd (add t (run evs))))) = position (fst (add t (run evs))) + 1 \<and>
      promise (fst (add t (run evs))) \<notin> set (executing (snd (add t (run evs)))) \<and>
      promise (fst (add t (run evs))) \<notin> fst ` set (settled (snd (add t (run evs))))) \<and>
   (\<not> running (run evs) \<longrightarrow>
      (case t of
         Starts n \<Rightarrow>
           executing (snd (add t (run evs))) = [promise (fst (add t (run evs)))] \<and>
           position (fst (add t' (snd (add t (run evs))))) = position (fst (add t (run evs))) + 1
       | ThrowsAtCall n e \<Rightarrow>
           (promise (fst (add t (run evs))), Rejected e) \<in> set (settled (snd (add t (run evs))))))"
proof -
  note i = inv_run[of evs]
  have fresh: "next_handle (run evs) \<notin> set (executing (run evs))"
    "next_handle (run evs) \<notin> fst ` set (settled (run evs))"
    using inv_handles_lt[OF i, of "next_handle (run evs)"] by auto
  have busy: "running (run evs) \<Longrightarrow>
      position (fst (add t' (snd (add t (run evs))))) = position (fst (add t (run evs))) + 1 \<and>
      promise (fst (add t (run evs))) \<notin> set (executing (snd (add t (run evs)))) \<and>
      promise (fst (add t (run evs))) \<notin> fst ` set (settled (snd (add t (run evs))))"
    using fresh by (simp add: add_busy add_position add_promise) (simp add: push_job_def)
  have idle: "\<not> running (run evs) \<Longrightarrow>
      (case t of
         Starts n \<Rightarrow>
           executing (snd (add t (run evs))) = [promise (fst (add t (run evs)))] \<and>
           position (fst (add t' (snd (add t (run evs))))) = position (fst (add t (run evs))) + 1
       | ThrowsAtCall n e \<Rightarrow>
           (promise (fst (add t (run evs))), Rejected e) \<in> set (settled (snd (add t (run evs)))))"
    by (cases t)
       (simp_all add: add_idle_starts[OF i] add_idle_throws[OF i] add_position add_promise push_job_def)
  show ?thesis
    using busy idle by (simp add: add_position add_promise push_job_nth)
qed

theorem add_returns_position_witness:
  "running (run [Add (Starts ''a'') :: (string, string) event]) \<and>
   position (fst (add (Starts ''b'') (run [Add (Starts ''a'') :: (string, string) event]))) = 2 \<and>
   position (fst (add (Starts ''c'')
     (snd (add (Starts ''b'') (run [Add (Starts ''a'') :: (string, string) event]))))) = 3 \<and>
   promise (fst (add (Starts ''b'') (run [Add (Starts ''a'') :: (string, string) event])))
     \<notin> set (executing (snd (add (Starts ''b'') (run [Add (Starts ''a'') :: (string, string) event])))) \<and>
   \<not> running (run ([] :: (string, string) event list)) \<and>
   position (fst (add (Starts ''a'') (run ([] :: (string, string) event list)))) = 1 \<and>
   executing (snd (add (Starts ''a'') (run ([] :: (string, string) event list)))) =
     [promise (fst (add (Starts ''a'') (run ([] :: (string, string) event list))))]"
proof -
  have r1: "running (run [Add (Starts ''a'') :: (string, string) event])"
    by (simp add: run_def DownloadQueue_def add_def push_job_def process_def process_loop.simps Let_def)
  have r0: "\<not> running (run ([] :: (string, string) event list))"
    by (simp add: run_def DownloadQueue_def)
  have l: "length (items (run [Add (Starts ''a'') :: (string, string) event])) = 1"
    "length (items (run ([] :: (string, string) event list))) = 0"
    by (simp_all add: run_def DownloadQueue_def add_def push_job_def process_def process_loop.simps Let_def)
  note w1 = add_returns_position[of "Starts ''b''" "[Add (Starts ''a'') :: (string, string) event]"
      "Starts ''c''"]
  note w2 = add_returns_position[of "Starts ''a''" "[] :: (string, string) event list" "Starts ''c''"]
  from w1 l have p: "position (fst (add (Starts ''b'') (run [Add (Starts ''a'') :: (string, string) event]))) = 2"
    by simp
  from w1 r1 p have p3: "position (fst (add (Starts ''c'')
     (snd (add (Starts ''b'') (run [Add (Starts ''a'') :: (string, string) event]))))) = 3"
    by simp
  from w1 r1 have e1: "promise (fst (add (Starts ''b'') (run [Add (Starts ''a'') :: (string, string) event])))
     \<notin> set (executing (snd (add (Starts ''b'') (run [Add (Starts ''a'') :: (string, string) event]))))"
    by blast
  from w2 l have p0: "position (fst (add (Starts ''a'') (run ([] :: (string, string) event list)))) = 1"
    by simp
  from w2 r0 have e0: "executing (snd (add (Starts ''a'') (run ([] :: (string, string) event list)))) =
     [promise (fst (add (Starts ''a'') (run ([] :: (string, string) event list))))]"
    by simp
  from r1 r0 p p3 e1 p0 e0 show ?thesis by blast
qed

text \<open>
  C7, on the task and the return of \<open>add\<close>.  \<open>add\<close> does not always return
  before the task runs: on a new queue the task of the first job is executing when
  \<open>add\<close> returns.
\<close>

theorem add_starts_task_counterexample:
  "promise (fst (add (Starts ''a'') (DownloadQueue :: (string, string) queue_state))) = 0 \<and>
   executing (snd (add (Starts ''a'') (DownloadQueue :: (string, string) queue_state))) = [0] \<and>
   executing (DownloadQueue :: (string, string) queue_state) = []"
  by (simp add: DownloadQueue_def add_def push_job_def process_def process_loop.simps Let_def)

section \<open>The duration policy\<close>

lemma toPositiveNumber_pos: "0 < d \<Longrightarrow> 0 < toPositiveNumber x d"
  by (simp add: toPositiveNumber_def split: option.splits)

lemma toPositiveNumber_nonneg: "0 \<le> d \<Longrightarrow> 0 \<le> toPositiveNumber x d"
  by (simp add: toPositiveNumber_def split: option.splits)

lemma maxAudioDuration_pos: "0 < maxAudioDuration (load_config ev)"
proof -
  have "0 \<le> toPositiveNumber (MAX_DURATION ev) 0" by (rule toPositiveNumber_nonneg) simp
  then have "0 < (if toPositiveNumber (MAX_DURATION ev) 0 = 0 then 1800
                  else toPositiveNumber (MAX_DURATION ev) 0)" by auto
  then show ?thesis
    by (simp add: load_config_def Let_def toPositiveNumber_pos)
qed

text \<open>
  C3.  Under every configuration \<open>config.js\<close> can load, a duration of 0 is
  rejected with \<open>INVALID_DURATION\<close> for audio and for video; a duration equal to
  \<open>maxAudioDuration\<close> is accepted for audio; one second more is rejected with
  \<open>AUDIO_DURATION_LIMIT\<close>.  \<open>getVideoSupport\<close> agrees at both boundaries.
\<close>

theorem duration_policy_boundaries:
  "assertDurationForMedia (load_config ev) (v\<lparr>durationSeconds := Some 0\<rparr>) MEDIA_AUDIO =
     Inl (new_YoutubeError ''INVALID_DURATION'' ''Nao foi possivel determinar a duracao do video.'') \<and>
   assertDurationForMedia (load_config ev) (v\<lparr>durationSeconds := Some 0\<rparr>) MEDIA_VIDEO =
     Inl (new_YoutubeError ''INVALID_DURATION'' ''Nao foi possivel determinar a duracao do video.'') \<and>
   assertDurationForMedia (load_config ev)
     (v\<lparr>durationSeconds := Some (maxAudioDuration (load_config ev))\<rparr>) MEDIA_AUDIO = Inr () \<and>
   audio (getVideoSupport (load_config ev)
     (v\<lparr>durationSeconds := Some (maxAudioDuration (load_config ev))\<rparr>)) \<and>
   assertDurationForMedia (load_config ev)
     (v\<lparr>durationSeconds := Some (maxAudioDuration (load_config ev) + 1)\<rparr>) MEDIA_AUDIO =
     Inl (new_YoutubeError ''AUDIO_DURATION_LIMIT'' ''Duracao acima do limite permitido.'') \<and>
   \<not> audio (getVideoSupport (load_config ev)
     (v\<lparr>durationSeconds := Some (maxAudioDuration (load_config ev) + 1)\<rparr>))"
  using maxAudioDuration_pos[of ev]
  by (simp add: assertDurationForMedia_def getVideoSupport_def number_or_def Let_def)

theorem duration_policy_boundaries_witness:
  "maxAudioDuration (load_config env_unset) = 1800 \<and>
   assertDurationForMedia (load_config env_unset) (clip\<lparr>durationSeconds := Some 0\<rparr>) MEDIA_VIDEO =
     Inl (new_YoutubeError ''INVALID_DURATION'' ''Nao foi possivel determinar a duracao do video.'') \<and>
   assertDurationForMedia (load_config env_unset) (clip\<lparr>durationSeconds := Some 1800\<rparr>) MEDIA_AUDIO =
     Inr () \<and>
   assertDurationForMedia (load_config env_unset) (clip\<lparr>durationSeconds := Some 1801\<rparr>) MEDIA_AUDIO =
     Inl (new_YoutubeError ''AUDIO_DURATION_LIMIT'' ''Duracao acima do limite permitido.'')"
proof -
  have m: "maxAudioDuration (load_config env_unset) = 1800"
    by (simp add: load_config_def env_unset_def toPositiveNumber_def Let_def)
  from duration_policy_boundaries[of env_unset clip] m show ?thesis by simp
qed

section \<open>Pending selections\<close>

text \<open>
  C4.  Reading an entry after its \<open>expiresAt\<close> returns nothing and removes the entry;
  any read after that, at whatever time, returns nothing and leaves the store as it is.
\<close>

theorem expired_selection_is_evicted:
  assumes "pendingSelections chatId = Some p" and "now > expiresAt p"
  shows "getPendingSelection now chatId pendingSelections = (None, pendingSelections(chatId := None)) \<and>
         (\<forall>later. getPendingSelection later chatId (pendingSelections(chatId := None)) =
                    (None, pendingSelections(chatId := None)))"
  using assms by (simp add: getPendingSelection_def)


theorem expired_selection_is_evicted_witness:
  "[''chat'' \<mapsto> entry_100] ''chat'' = Some entry_100 \<and> 101 > expiresAt entry_100 \<and>
   fst (getPendingSelection 101 ''chat'' [''chat'' \<mapsto> entry_100]) = None \<and>
   snd (getPendingSelection 101 ''chat'' [''chat'' \<mapsto> entry_100]) ''chat'' = None \<and>
   getPendingSelection 500 ''chat'' ([''chat'' \<mapsto> entry_100](''chat'' := None)) =
     (None, [''chat'' \<mapsto> entry_100](''chat'' := None))"
proof -
  have h: "[''chat'' \<mapsto> entry_100] ''chat'' = Some entry_100" "101 > expiresAt entry_100"
    by (simp_all add: entry_100_def)
  from expired_selection_is_evicted[where pendingSelections = "[''chat'' \<mapsto> entry_100]"
      and chatId = "''chat''" and p = entry_100 and now = 101] h
  show ?thesis by simp
qed

text \<open>
  C10.  A read at the instant \<open>expiresAt\<close> itself returns the entry and leaves the
  store as it is; the entry is returned exactly at the instants up to \<open>expiresAt\<close>,
  that one included, and is absent exactly at the instants after it.  So an entry
  stored by \<open>setPendingSelection\<close> is still there at the end of the timeout.
\<close>

theorem expiry_boundary_is_exclusive:
  assumes "pendingSelections chatId = Some p"
  shows "getPendingSelection (expiresAt p) chatId pendingSelections = (Some p, pendingSelections) \<and>
         (\<forall>now. (getPendingSelection now chatId pendingSelections = (Some p, pendingSelections))
                  = (now \<le> expiresAt p)) \<and>
         (\<forall>now. (fst (getPendingSelection now chatId pendingSelections) = None)
                  = (now > expiresAt p)) \<and>
         (\<forall>cfg t0 pl. fst (getPendingSelection (t0 + selectionTimeoutSeconds cfg * 1000) chatId
                              (setPendingSelection cfg t0 chatId pl pendingSelections)) \<noteq> None)"
  using assms by (auto simp: getPendingSelection_def setPendingSelection_def)

theorem expiry_boundary_is_exclusive_witness:
  "[''chat'' \<mapsto> entry_100] ''chat'' = Some entry_100 \<and>
   getPendingSelection 100 ''chat'' [''chat'' \<mapsto> entry_100] =
     (Some entry_100, [''chat'' \<mapsto> entry_100]) \<and>
   fst (getPendingSelection 101 ''chat'' [''chat'' \<mapsto> entry_100]) = None"
proof -
  have h: "[''chat'' \<mapsto> entry_100] ''chat'' = Some entry_100" by simp
  have e: "expiresAt entry_100 = 100" by (simp add: entry_100_def)
  from expiry_boundary_is_exclusive[where pendingSelections = "[''chat'' \<mapsto> entry_100]"
      and chatId = "''chat''" and p = entry_100] h e
  show ?thesis by simp
qed

section \<open>Selection replies\<close>

subsection \<open>Character classes\<close>

lemma az_not_digit: "is_az c \<Longrightarrow> \<not> is_digit c"
  and az_not_space: "is_az c \<Longrightarrow> \<not> is_space c"
  and digit_not_space: "is_digit c \<Longrightarrow> \<not> is_space c"
  and digit_not_az: "is_digit c \<Longrightarrow> \<not> is_az c"
  and space_not_az: "is_space c \<Longrightarrow> \<not> is_az c"
  and space_not_digit: "is_space c \<Longrightarrow> \<not> is_digit c"
  by (auto simp: is_az_def is_digit_def is_space_def Let_def)

lemma lower_fixes:
  "is_az c \<Longrightarrow> toLowerCaseChar c = c"
  "is_digit c \<Longrightarrow> toLowerCaseChar c = c"
  "is_space c \<Longrightarrow> toLowerCaseChar c = c"
  by (auto simp: is_az_def is_digit_def is_space_def toLowerCaseChar_def Let_def)

lemma lower_class:
  "is_digit (toLowerCaseChar c) = is_digit c"
  "is_space (toLowerCaseChar c) = is_space c"
  by (auto simp: is_digit_def is_space_def toLowerCaseChar_def Let_def)

lemma toLowerCase_fixes:
  "list_all is_az s \<Longrightarrow> toLowerCase s = s"
  "list_all is_digit s \<Longrightarrow> toLowerCase s = s"
  "list_all is_space s \<Longrightarrow> toLowerCase s = s"
  by (induction s) (simp_all add: toLowerCase_def lower_fixes)

lemma toLowerCase_append: "toLowerCase (a @ b) = toLowerCase a @ toLowerCase b"
  by (simp add: toLowerCase_def)

subsection \<open>The regular expressions\<close>

lemma takeWhile_block:
  assumes "list_all P xs" and "ys \<noteq> []" and "\<not> P (hd ys)"
  shows "takeWhile P (xs @ ys) = xs" and "dropWhile P (xs @ ys) = ys"
  using assms by (cases ys; induction xs; simp)+

lemma hd_block: "xs \<noteq> [] \<Longrightarrow> list_all P xs \<Longrightarrow> P (hd xs)"
  by (cases xs) simp_all

lemma mediaFirst_shape:
  assumes "l \<noteq> []" "list_all is_az l" "list_all is_space w" "ds \<noteq> []" "list_all is_digit ds"
  shows "match_mediaFirst (l @ w @ ds) = Some (l, ds)" and "\<not> test_digits (l @ w @ ds)"
proof -
  have hd_ds: "is_digit (hd ds)" using assms(4,5) by (rule hd_block)
  have nz: "\<not> is_az (hd (w @ ds))"
    using assms(3,4) hd_ds by (cases w) (auto dest: space_not_az digit_not_az)
  have t: "takeWhile is_az (l @ w @ ds) = l" "dropWhile is_az (l @ w @ ds) = w @ ds"
    using takeWhile_block[OF assms(2) _ nz] assms(4) by simp_all
  have d: "dropWhile is_space (w @ ds) = ds"
    using takeWhile_block(2)[OF assms(3) assms(4)] hd_ds by (auto dest: digit_not_space)
  show "match_mediaFirst (l @ w @ ds) = Some (l, ds)"
    using assms by (simp add: match_mediaFirst_def t d)
  have "is_az (hd l)" using assms(1,2) by (rule hd_block)
  then show "\<not> test_digits (l @ w @ ds)"
    using assms(1) by (cases l) (auto simp: test_digits_def dest: az_not_digit)
qed

lemma indexFirst_shape:
  assumes "l \<noteq> []" "list_all is_az l" "list_all is_space w" "ds \<noteq> []" "list_all is_digit ds"
  shows "match_indexFirst (ds @ w @ l) = Some (ds, l)" and "\<not> test_digits (ds @ w @ l)"
    and "match_mediaFirst (ds @ w @ l) = None"
proof -
  have hd_l: "is_az (hd l)" using assms(1,2) by (rule hd_block)
  have hd_ds: "is_digit (hd ds)" using assms(4,5) by (rule hd_block)
  have nz: "\<not> is_digit (hd (w @ l))"
    using assms(3,1) hd_l by (cases w) (auto dest: space_not_digit az_not_digit)
  have t: "takeWhile is_digit (ds @ w @ l) = ds" "dropWhile is_digit (ds @ w @ l) = w @ l"
    using takeWhile_block[OF assms(5) _ nz] assms(1) by simp_all
  have d: "dropWhile is_space (w @ l) = l"
    using takeWhile_block(2)[OF assms(3) assms(1)] hd_l by (auto dest: az_not_space)
  show "match_indexFirst (ds @ w @ l) = Some (ds, l)"
    using assms by (simp add: match_indexFirst_def t d)
  have "\<not> is_digit (last l)"
    using assms(1,2) by (induction l) (auto dest: az_not_digit)
  then show "\<not> test_digits (ds @ w @ l)"
    using assms(1) by (auto simp: test_digits_def list_all_iff)
  have "takeWhile is_az (ds @ w @ l) = []"
    using hd_ds assms(4) by (cases ds) (auto dest: digit_not_az)
  then show "match_mediaFirst (ds @ w @ l) = None"
    by (simp add: match_mediaFirst_def)
qed

lemma mediaFirst_Some:
  assumes "match_mediaFirst v = Some (l, ds)"
  shows "\<exists>w. v = l @ w @ ds \<and> l \<noteq> [] \<and> list_all is_az l \<and> list_all is_space w \<and>
             ds \<noteq> [] \<and> list_all is_digit ds"
proof -
  let ?rest = "dropWhile is_az v"
  from assms have l: "l = takeWhile is_az v" and ds: "ds = dropWhile is_space ?rest"
    and ne: "l \<noteq> []" "ds \<noteq> []" and dg: "list_all is_digit ds"
    by (auto simp: match_mediaFirst_def Let_def split: if_splits)
  have "v = l @ takeWhile is_space ?rest @ ds"
    unfolding l ds by simp
  moreover have "list_all is_az l" unfolding l by (simp add: list_all_iff) (meson set_takeWhileD)
  moreover have "list_all is_space (takeWhile is_space ?rest)"
    by (simp add: list_all_iff) (meson set_takeWhileD)
  ultimately show ?thesis using ne dg by blast
qed

lemma indexFirst_Some:
  assumes "match_indexFirst v = Some (ds, l)"
  shows "\<exists>w. v = ds @ w @ l \<and> l \<noteq> [] \<and> list_all is_az l \<and> list_all is_space w \<and>
             ds \<noteq> [] \<and> list_all is_digit ds"
proof -
  let ?rest = "dropWhile is_digit v"
  from assms have ds: "ds = takeWhile is_digit v" and l: "l = dropWhile is_space ?rest"
    and ne: "l \<noteq> []" "ds \<noteq> []" and az: "list_all is_az l"
    by (auto simp: match_indexFirst_def Let_def split: if_splits)
  have "v = ds @ takeWhile is_space ?rest @ l"
    unfolding l ds by simp
  moreover have "list_all is_digit ds" unfolding ds by (simp add: list_all_iff) (meson set_takeWhileD)
  moreover have "list_all is_space (takeWhile is_space ?rest)"
    by (simp add: list_all_iff) (meson set_takeWhileD)
  ultimately show ?thesis using ne az by blast
qed

lemma normalizeMediaToken_az:
  assumes "list_all is_az l"
  shows "normalizeMediaToken l = Some m \<longleftrightarrow>
           (l, m) \<in> {(''a'', MEDIA_AUDIO), (''audio'', MEDIA_AUDIO),
                      (''v'', MEDIA_VIDEO), (''video'', MEDIA_VIDEO)}"
  using toLowerCase_fixes(1)[OF assms]
  by (auto simp: normalizeMediaToken_def Let_def split: if_splits)

lemma normalizeMediaToken_None_az:
  assumes "list_all is_az l"
  shows "normalizeMediaToken l = None \<longleftrightarrow> l \<notin> {''a'', ''audio'', ''v'', ''video''}"
  using toLowerCase_fixes(1)[OF assms]
  by (auto simp: normalizeMediaToken_def Let_def split: if_splits)


subsection \<open>parseSelectionChoice\<close>

lemma parse_digits:
  assumes "toLowerCase (trim text) = ds" "ds \<noteq> []" "list_all is_digit ds"
  shows "parseSelectionChoice text dflt = Some \<lparr>index = Number_of_digits ds, mediaType = dflt\<rparr>"
  using assms by (simp add: parseSelectionChoice_def test_digits_def Let_def)

lemma parse_mediaFirst:
  assumes "toLowerCase (trim text) = l @ w @ ds"
    and "l \<noteq> []" "list_all is_az l" "list_all is_space w" "ds \<noteq> []" "list_all is_digit ds"
  shows "parseSelectionChoice text dflt =
           map_option (\<lambda>m. \<lparr>index = Number_of_digits ds, mediaType = m\<rparr>) (normalizeMediaToken l)"
  using assms mediaFirst_shape[OF assms(2-6)]
  by (simp add: parseSelectionChoice_def Let_def split: option.splits)

lemma parse_indexFirst:
  assumes "toLowerCase (trim text) = ds @ w @ l"
    and "l \<noteq> []" "list_all is_az l" "list_all is_space w" "ds \<noteq> []" "list_all is_digit ds"
  shows "parseSelectionChoice text dflt =
           map_option (\<lambda>m. \<lparr>index = Number_of_digits ds, mediaType = m\<rparr>) (normalizeMediaToken l)"
  using assms indexFirst_shape[OF assms(2-6)]
  by (simp add: parseSelectionChoice_def Let_def split: option.splits)

lemma parse_Some:
  assumes "parseSelectionChoice text dflt = Some sel"
  shows "(toLowerCase (trim text) \<noteq> [] \<and> list_all is_digit (toLowerCase (trim text)) \<and>
          sel = \<lparr>index = Number_of_digits (toLowerCase (trim text)), mediaType = dflt\<rparr>) \<or>
         (\<exists>l w ds m. toLowerCase (trim text) = l @ w @ ds \<and> l \<noteq> [] \<and> list_all is_az l \<and>
            list_all is_space w \<and> ds \<noteq> [] \<and> list_all is_digit ds \<and>
            normalizeMediaToken l = Some m \<and>
            sel = \<lparr>index = Number_of_digits ds, mediaType = m\<rparr>) \<or>
         (\<exists>l w ds m. toLowerCase (trim text) = ds @ w @ l \<and> l \<noteq> [] \<and> list_all is_az l \<and>
            list_all is_space w \<and> ds \<noteq> [] \<and> list_all is_digit ds \<and>
            normalizeMediaToken l = Some m \<and>
            sel = \<lparr>index = Number_of_digits ds, mediaType = m\<rparr>)"
proof -
  let ?v = "toLowerCase (trim text)"
  show ?thesis
  proof (cases "test_digits ?v")
    case True
    with assms show ?thesis
      by (auto simp: parseSelectionChoice_def test_digits_def Let_def split: if_splits)
  next
    case nd: False
    show ?thesis
    proof (cases "match_mediaFirst ?v")
      case (Some g)
      obtain l ds where g: "g = (l, ds)" by (cases g)
      from assms nd Some g obtain m where m: "normalizeMediaToken l = Some m"
        "sel = \<lparr>index = Number_of_digits ds, mediaType = m\<rparr>"
        by (auto simp: parseSelectionChoice_def Let_def split: if_splits option.splits)
      from mediaFirst_Some[OF Some[unfolded g]] m show ?thesis by blast
    next
      case None
      show ?thesis
      proof (cases "match_indexFirst ?v")
        case n2: None
        with assms nd None show ?thesis
          by (auto simp: parseSelectionChoice_def Let_def split: if_splits)
      next
        case (Some g)
        obtain ds l where g: "g = (ds, l)" by (cases g)
        from assms nd None Some g obtain m where m: "normalizeMediaToken l = Some m"
          "sel = \<lparr>index = Number_of_digits ds, mediaType = m\<rparr>"
          by (auto simp: parseSelectionChoice_def Let_def split: if_splits option.splits)
        from indexFirst_Some[OF Some[unfolded g]] m show ?thesis by blast
      qed
    qed
  qed
qed

lemma tokens_az:
  "list_all is_az ''a''" "list_all is_az ''audio''" "list_all is_az ''v''" "list_all is_az ''video''"
  by (simp_all add: is_az_def)

lemma token_az:
  assumes "(tok, m) \<in> {(''a'', MEDIA_AUDIO), (''audio'', MEDIA_AUDIO),
                        (''v'', MEDIA_VIDEO), (''video'', MEDIA_VIDEO)}"
  shows "tok \<noteq> []" "list_all is_az tok"
proof -
  from assms have "tok = ''a'' \<or> tok = ''audio'' \<or> tok = ''v'' \<or> tok = ''video''" by blast
  then show "tok \<noteq> []" "list_all is_az tok" using tokens_az by auto
qed

lemma eval_lower_trim:
  "toLowerCase (trim ''A3'') = ''a'' @ [] @ ''3''"
  "toLowerCase (trim ''2 Video'') = ''2'' @ '' '' @ ''video''"
  "toLowerCase (trim '' 7 '') = ''7''"
  "toLowerCase (trim ''x3'') = ''x'' @ [] @ ''3''"
  by code_simp+

lemma eval_classes:
  "list_all is_digit ''3''" "list_all is_digit ''2''" "list_all is_digit ''7''"
  "list_all is_space '' ''" "list_all is_space []" "list_all is_az ''x''"
  "is_digit CHR ''3''" "is_digit CHR ''2''" "is_digit CHR ''7''" "is_space CHR '' ''" "is_az CHR ''x''"
  by (simp_all add: is_digit_def is_space_def is_az_def)

lemma eval_numbers:
  "Number_of_digits ''3'' = 3" "Number_of_digits ''2'' = 2" "Number_of_digits ''7'' = 7"
  by (simp_all add: Number_of_digits_def digit_value_def)

text \<open>
  C5.  With \<open>v\<close> the reply trimmed and put in lower case, \<open>parseSelectionChoice\<close>
  returns a selection in exactly three cases: \<open>v\<close> is a string of digits (the
  selection has the default media type); \<open>v\<close> is a letter token, then white space
  or none, then digits; \<open>v\<close> is digits, then white space or none, then a letter
  token.  The token \<open>a\<close> or \<open>audio\<close> gives audio, \<open>v\<close> or \<open>video\<close> gives
  video.  With any other token of letters in one of the two shapes the result is
  \<open>null\<close>; the function has no other outcome, so nothing is thrown.
\<close>

theorem parseSelectionChoice_three_shapes:
  "(parseSelectionChoice text dflt = Some sel) =
     ((\<exists>ds. toLowerCase (trim text) = ds \<and> ds \<noteq> [] \<and> list_all is_digit ds \<and>
            sel = \<lparr>index = Number_of_digits ds, mediaType = dflt\<rparr>) \<or>
      (\<exists>tok w ds m. toLowerCase (trim text) = tok @ w @ ds \<and>
            list_all is_space w \<and> ds \<noteq> [] \<and> list_all is_digit ds \<and>
            (tok, m) \<in> {(''a'', MEDIA_AUDIO), (''audio'', MEDIA_AUDIO),
                         (''v'', MEDIA_VIDEO), (''video'', MEDIA_VIDEO)} \<and>
            sel = \<lparr>index = Number_of_digits ds, mediaType = m\<rparr>) \<or>
      (\<exists>tok w ds m. toLowerCase (trim text) = ds @ w @ tok \<and>
            list_all is_space w \<and> ds \<noteq> [] \<and> list_all is_digit ds \<and>
            (tok, m) \<in> {(''a'', MEDIA_AUDIO), (''audio'', MEDIA_AUDIO),
                         (''v'', MEDIA_VIDEO), (''video'', MEDIA_VIDEO)} \<and>
            sel = \<lparr>index = Number_of_digits ds, mediaType = m\<rparr>))
   \<and>
   (\<forall>l w ds. (toLowerCase (trim text) = l @ w @ ds \<or> toLowerCase (trim text) = ds @ w @ l) \<and>
        l \<noteq> [] \<and> list_all is_az l \<and> list_all is_space w \<and> ds \<noteq> [] \<and> list_all is_digit ds \<and>
        l \<notin> {''a'', ''audio'', ''v'', ''video''}
      \<longrightarrow> parseSelectionChoice text dflt = None)"
proof (intro conjI iffI allI impI)
  assume "parseSelectionChoice text dflt = Some sel"
  from parse_Some[OF this] consider
      (digits) "toLowerCase (trim text) \<noteq> []" "list_all is_digit (toLowerCase (trim text))"
        "sel = \<lparr>index = Number_of_digits (toLowerCase (trim text)), mediaType = dflt\<rparr>"
    | (mediaFirst) l w ds m where "toLowerCase (trim text) = l @ w @ ds" "list_all is_az l"
        "list_all is_space w" "ds \<noteq> []" "list_all is_digit ds" "normalizeMediaToken l = Some m"
        "sel = \<lparr>index = Number_of_digits ds, mediaType = m\<rparr>"
    | (indexFirst) l w ds m where "toLowerCase (trim text) = ds @ w @ l" "list_all is_az l"
        "list_all is_space w" "ds \<noteq> []" "list_all is_digit ds" "normalizeMediaToken l = Some m"
        "sel = \<lparr>index = Number_of_digits ds, mediaType = m\<rparr>"
    by blast
  then show
    "(\<exists>ds. toLowerCase (trim text) = ds \<and> ds \<noteq> [] \<and> list_all is_digit ds \<and>
            sel = \<lparr>index = Number_of_digits ds, mediaType = dflt\<rparr>) \<or>
      (\<exists>tok w ds m. toLowerCase (trim text) = tok @ w @ ds \<and>
            list_all is_space w \<and> ds \<noteq> [] \<and> list_all is_digit ds \<and>
            (tok, m) \<in> {(''a'', MEDIA_AUDIO), (''audio'', MEDIA_AUDIO),
                         (''v'', MEDIA_VIDEO), (''video'', MEDIA_VIDEO)} \<and>
            sel = \<lparr>index = Number_of_digits ds, mediaType = m\<rparr>) \<or>
      (\<exists>tok w ds m. toLowerCase (trim text) = ds @ w @ tok \<and>
            list_all is_space w \<and> ds \<noteq> [] \<and> list_all is_digit ds \<and>
            (tok, m) \<in> {(''a'', MEDIA_AUDIO), (''audio'', MEDIA_AUDIO),
                         (''v'', MEDIA_VIDEO), (''video'', MEDIA_VIDEO)} \<and>
            sel = \<lparr>index = Number_of_digits ds, mediaType = m\<rparr>)"
  proof cases
    case digits
    then show ?thesis by (intro disjI1) simp
  next
    case mediaFirst
    have "(l, m) \<in> {(''a'', MEDIA_AUDIO), (''audio'', MEDIA_AUDIO),
                     (''v'', MEDIA_VIDEO), (''video'', MEDIA_VIDEO)}"
      using normalizeMediaToken_az[OF mediaFirst(2), of m] mediaFirst(6) by simp
    with mediaFirst show ?thesis by (intro disjI2 disjI1 exI[of _ l] exI[of _ w] exI[of _ ds] exI[of _ m]) simp
  next
    case indexFirst
    have "(l, m) \<in> {(''a'', MEDIA_AUDIO), (''audio'', MEDIA_AUDIO),
                     (''v'', MEDIA_VIDEO), (''video'', MEDIA_VIDEO)}"
      using normalizeMediaToken_az[OF indexFirst(2), of m] indexFirst(6) by simp
    with indexFirst show ?thesis by (intro disjI2 exI[of _ l] exI[of _ w] exI[of _ ds] exI[of _ m]) simp
  qed
next
  assume "(\<exists>ds. toLowerCase (trim text) = ds \<and> ds \<noteq> [] \<and> list_all is_digit ds \<and>
            sel = \<lparr>index = Number_of_digits ds, mediaType = dflt\<rparr>) \<or>
      (\<exists>tok w ds m. toLowerCase (trim text) = tok @ w @ ds \<and>
            list_all is_space w \<and> ds \<noteq> [] \<and> list_all is_digit ds \<and>
            (tok, m) \<in> {(''a'', MEDIA_AUDIO), (''audio'', MEDIA_AUDIO),
                         (''v'', MEDIA_VIDEO), (''video'', MEDIA_VIDEO)} \<and>
            sel = \<lparr>index = Number_of_digits ds, mediaType = m\<rparr>) \<or>
      (\<exists>tok w ds m. toLowerCase (trim text) = ds @ w @ tok \<and>
            list_all is_space w \<and> ds \<noteq> [] \<and> list_all is_digit ds \<and>
            (tok, m) \<in> {(''a'', MEDIA_AUDIO), (''audio'', MEDIA_AUDIO),
                         (''v'', MEDIA_VIDEO), (''video'', MEDIA_VIDEO)} \<and>
            sel = \<lparr>index = Number_of_digits ds, mediaType = m\<rparr>)"
  then consider
      (digits) ds where "toLowerCase (trim text) = ds" "ds \<noteq> []" "list_all is_digit ds"
        "sel = \<lparr>index = Number_of_digits ds, mediaType = dflt\<rparr>"
    | (mediaFirst) tok w ds m where "toLowerCase (trim text) = tok @ w @ ds"
        "list_all is_space w" "ds \<noteq> []" "list_all is_digit ds"
        "(tok, m) \<in> {(''a'', MEDIA_AUDIO), (''audio'', MEDIA_AUDIO),
                      (''v'', MEDIA_VIDEO), (''video'', MEDIA_VIDEO)}"
        "sel = \<lparr>index = Number_of_digits ds, mediaType = m\<rparr>"
    | (indexFirst) tok w ds m where "toLowerCase (trim text) = ds @ w @ tok"
        "list_all is_space w" "ds \<noteq> []" "list_all is_digit ds"
        "(tok, m) \<in> {(''a'', MEDIA_AUDIO), (''audio'', MEDIA_AUDIO),
                      (''v'', MEDIA_VIDEO), (''video'', MEDIA_VIDEO)}"
        "sel = \<lparr>index = Number_of_digits ds, mediaType = m\<rparr>"
    by blast
  then show "parseSelectionChoice text dflt = Some sel"
  proof cases
    case digits
    then show ?thesis by (simp add: parse_digits)
  next
    case mediaFirst
    note az = token_az[OF mediaFirst(5)]
    have "normalizeMediaToken tok = Some m"
      using normalizeMediaToken_az[OF az(2)] mediaFirst(5) by blast
    with parse_mediaFirst[OF mediaFirst(1) az mediaFirst(2-4), of dflt] mediaFirst(6)
    show ?thesis by simp
  next
    case indexFirst
    note az = token_az[OF indexFirst(5)]
    have "normalizeMediaToken tok = Some m"
      using normalizeMediaToken_az[OF az(2)] indexFirst(5) by blast
    with parse_indexFirst[OF indexFirst(1) az indexFirst(2-4), of dflt] indexFirst(6)
    show ?thesis by simp
  qed
next
  fix l w ds
  assume a: "(toLowerCase (trim text) = l @ w @ ds \<or> toLowerCase (trim text) = ds @ w @ l) \<and>
        l \<noteq> [] \<and> list_all is_az l \<and> list_all is_space w \<and> ds \<noteq> [] \<and> list_all is_digit ds \<and>
        l \<notin> {''a'', ''audio'', ''v'', ''video''}"
  then have az: "l \<noteq> []" "list_all is_az l" "list_all is_space w" "ds \<noteq> []" "list_all is_digit ds"
    and other: "l \<notin> {''a'', ''audio'', ''v'', ''video''}"
    and shape: "toLowerCase (trim text) = l @ w @ ds \<or> toLowerCase (trim text) = ds @ w @ l"
    by simp_all
  have n: "normalizeMediaToken l = None"
    using normalizeMediaToken_None_az[OF az(2)] other by simp
  from shape show "parseSelectionChoice text dflt = None"
  proof
    assume "toLowerCase (trim text) = l @ w @ ds"
    from parse_mediaFirst[OF this az, of dflt] n show ?thesis by simp
  next
    assume "toLowerCase (trim text) = ds @ w @ l"
    from parse_indexFirst[OF this az, of dflt] n show ?thesis by simp
  qed
qed

theorem parseSelectionChoice_three_shapes_witness:
  "parseSelectionChoice '' 7 '' MEDIA_VIDEO = Some \<lparr>index = 7, mediaType = MEDIA_VIDEO\<rparr> \<and>
   parseSelectionChoice ''A3'' MEDIA_VIDEO = Some \<lparr>index = 3, mediaType = MEDIA_AUDIO\<rparr> \<and>
   parseSelectionChoice ''2 Video'' MEDIA_AUDIO = Some \<lparr>index = 2, mediaType = MEDIA_VIDEO\<rparr> \<and>
   parseSelectionChoice ''x3'' MEDIA_AUDIO = None"
proof -
  note t = parseSelectionChoice_three_shapes
  have 1: "parseSelectionChoice '' 7 '' MEDIA_VIDEO = Some \<lparr>index = 7, mediaType = MEDIA_VIDEO\<rparr>"
    apply (rule iffD2[OF conjunct1[OF t]])
    apply (rule disjI1)
    apply (rule exI[of _ "''7''"])
    apply (simp add: eval_lower_trim eval_classes eval_numbers)
    done
  have 2: "parseSelectionChoice ''A3'' MEDIA_VIDEO = Some \<lparr>index = 3, mediaType = MEDIA_AUDIO\<rparr>"
    apply (rule iffD2[OF conjunct1[OF t]])
    apply (rule disjI2, rule disjI1)
    apply (rule exI[of _ "''a''"], rule exI[of _ "[]"], rule exI[of _ "''3''"], rule exI[of _ MEDIA_AUDIO])
    apply (simp add: eval_lower_trim eval_classes eval_numbers)
    done
  have 3: "parseSelectionChoice ''2 Video'' MEDIA_AUDIO = Some \<lparr>index = 2, mediaType = MEDIA_VIDEO\<rparr>"
    apply (rule iffD2[OF conjunct1[OF t]])
    apply (rule disjI2, rule disjI2)
    apply (rule exI[of _ "''video''"], rule exI[of _ "'' ''"], rule exI[of _ "''2''"], rule exI[of _ MEDIA_VIDEO])
    apply (simp add: eval_lower_trim eval_classes eval_numbers)
    done
  have 4: "parseSelectionChoice ''x3'' MEDIA_AUDIO = None"
    apply (rule mp[OF spec[OF spec[OF spec[OF conjunct2[OF t]]]], of _ "''x''" "[]" "''3''"])
    apply (simp add: eval_lower_trim eval_classes)
    done
  from 1 2 3 4 show ?thesis by blast
qed

lemma trim_block:
  assumes "list_all is_space lead" "list_all is_space trail" "x \<noteq> []"
    and "\<not> is_space (hd x)" "\<not> is_space (last x)"
  shows "trim (lead @ x @ trail) = x"
proof -
  have 1: "dropWhile is_space (lead @ x @ trail) = x @ trail"
    using takeWhile_block(2)[OF assms(1), of "x @ trail"] assms(3,4) by simp
  have 2: "dropWhile is_space (rev trail @ rev x) = rev x"
    using takeWhile_block(2)[of is_space "rev trail" "rev x"] assms(2,3,5)
    by (simp add: hd_rev list_all_iff)
  show ?thesis by (simp add: trim_def 1 2)
qed

text \<open>
  C9.  For a token \<open>t\<close> of letters in any case and digits \<open>ds\<close>, white space
  around the reply and between the two parts, and the case of the letters, do not
  change the result: it is that of the compact form in lower case, which is the
  selection of \<open>ds\<close> with the media type of \<open>t\<close>, or \<open>null\<close> when \<open>t\<close> is not
  a media token.
\<close>

theorem parseSelectionChoice_case_and_spacing:
  assumes "t \<noteq> []" and "list_all is_az (toLowerCase t)"
    and "ds \<noteq> []" and "list_all is_digit ds"
    and "list_all is_space w" and "list_all is_space lead" and "list_all is_space trail"
  shows "parseSelectionChoice (lead @ t @ w @ ds @ trail) dflt =
           parseSelectionChoice (toLowerCase t @ ds) dflt \<and>
         parseSelectionChoice (lead @ ds @ w @ t @ trail) dflt =
           parseSelectionChoice (ds @ toLowerCase t) dflt \<and>
         parseSelectionChoice (toLowerCase t @ ds) dflt =
           map_option (\<lambda>m. \<lparr>index = Number_of_digits ds, mediaType = m\<rparr>) (normalizeMediaToken t) \<and>
         parseSelectionChoice (ds @ toLowerCase t) dflt =
           map_option (\<lambda>m. \<lparr>index = Number_of_digits ds, mediaType = m\<rparr>) (normalizeMediaToken t)"
proof -
  let ?l = "toLowerCase t"
  have lne: "?l \<noteq> []" using assms(1) by (simp add: toLowerCase_def)
  have ll: "toLowerCase ?l = ?l" by (rule toLowerCase_fixes(1)[OF assms(2)])
  have nt: "normalizeMediaToken ?l = normalizeMediaToken t"
    by (simp add: normalizeMediaToken_def ll)
  have hd_t: "\<not> is_space (hd t)"
  proof -
    have "is_az (toLowerCaseChar (hd t))"
      using assms(1,2) by (cases t) (simp_all add: toLowerCase_def)
    then show ?thesis using lower_class(2) az_not_space by blast
  qed
  have last_t: "\<not> is_space (last t)"
  proof -
    have "is_az (toLowerCaseChar (last t))"
      using assms(1,2) by (induction t) (auto simp: toLowerCase_def)
    then show ?thesis using lower_class(2) az_not_space by blast
  qed
  have hd_l: "\<not> is_space (hd ?l)" and last_l: "\<not> is_space (last ?l)"
    using hd_block[OF lne assms(2)] lne assms(2)
    by (auto dest: az_not_space simp: list_all_iff)
  have hd_ds: "\<not> is_space (hd ds)" and last_ds: "\<not> is_space (last ds)"
    using hd_block[OF assms(3,4)] assms(3,4)
    by (auto dest: digit_not_space simp: list_all_iff)
  have lower_w: "toLowerCase w = w" and lower_ds: "toLowerCase ds = ds"
    using assms(4,5) by (simp_all add: toLowerCase_fixes)
  have v1: "toLowerCase (trim (lead @ t @ w @ ds @ trail)) = ?l @ w @ ds"
    using trim_block[OF assms(6,7), of "t @ w @ ds"] assms(1,3) hd_t last_ds
    by (simp add: toLowerCase_append lower_w lower_ds)
  have v2: "toLowerCase (trim (lead @ ds @ w @ t @ trail)) = ds @ w @ ?l"
    using trim_block[OF assms(6,7), of "ds @ w @ t"] assms(1,3) hd_ds last_t
    by (simp add: toLowerCase_append lower_w lower_ds)
  have v3: "toLowerCase (trim (?l @ ds)) = ?l @ [] @ ds"
    using trim_block[of "[]" "[]" "?l @ ds"] lne assms(3) hd_l last_ds
    by (simp add: toLowerCase_append lower_ds ll)
  have v4: "toLowerCase (trim (ds @ ?l)) = ds @ [] @ ?l"
    using trim_block[of "[]" "[]" "ds @ ?l"] lne assms(3) hd_ds last_l
    by (simp add: toLowerCase_append lower_ds ll)
  note mf = parse_mediaFirst[OF _ lne assms(2) _ assms(3,4)]
  note xf = parse_indexFirst[OF _ lne assms(2) _ assms(3,4)]
  show ?thesis
    using mf[OF v1 assms(5), of dflt] mf[OF v3, of dflt] xf[OF v2 assms(5), of dflt] xf[OF v4, of dflt]
    by (simp add: nt)
qed


theorem parseSelectionChoice_case_and_spacing_witness:
  "parseSelectionChoice ''A3'' MEDIA_VIDEO = parseSelectionChoice ''a3'' MEDIA_VIDEO \<and>
   parseSelectionChoice ''Audio 3'' MEDIA_VIDEO = parseSelectionChoice ''audio3'' MEDIA_VIDEO \<and>
   parseSelectionChoice ''3 V'' MEDIA_AUDIO = parseSelectionChoice ''3v'' MEDIA_AUDIO \<and>
   parseSelectionChoice ''audio3'' MEDIA_VIDEO = Some \<lparr>index = 3, mediaType = MEDIA_AUDIO\<rparr> \<and>
   parseSelectionChoice ''3v'' MEDIA_AUDIO = Some \<lparr>index = 3, mediaType = MEDIA_VIDEO\<rparr>"
proof -
  have c: "list_all is_az (toLowerCase ''A'')" "list_all is_az (toLowerCase ''Audio'')"
    "list_all is_az (toLowerCase ''V'')"
    by code_simp+
  have l: "toLowerCase ''A'' = ''a''" "toLowerCase ''Audio'' = ''audio''" "toLowerCase ''V'' = ''v''"
    by code_simp+
  have n: "normalizeMediaToken ''Audio'' = Some MEDIA_AUDIO" "normalizeMediaToken ''V'' = Some MEDIA_VIDEO"
    "normalizeMediaToken ''A'' = Some MEDIA_AUDIO"
    by code_simp+
  note w1 = parseSelectionChoice_case_and_spacing[where t = "''A''" and ds = "''3''" and w = "[]"
      and lead = "[]" and trail = "[]" and dflt = MEDIA_VIDEO]
  note w2 = parseSelectionChoice_case_and_spacing[where t = "''Audio''" and ds = "''3''" and w = "'' ''"
      and lead = "[]" and trail = "[]" and dflt = MEDIA_VIDEO]
  note w3 = parseSelectionChoice_case_and_spacing[where t = "''V''" and ds = "''3''" and w = "'' ''"
      and lead = "[]" and trail = "[]" and dflt = MEDIA_AUDIO]
  from w1 c have 1: "parseSelectionChoice ''A3'' MEDIA_VIDEO = parseSelectionChoice ''a3'' MEDIA_VIDEO"
    by (simp add: eval_classes l)
  from w2 c have 2: "parseSelectionChoice ''Audio 3'' MEDIA_VIDEO = parseSelectionChoice ''audio3'' MEDIA_VIDEO"
    "parseSelectionChoice ''audio3'' MEDIA_VIDEO = Some \<lparr>index = 3, mediaType = MEDIA_AUDIO\<rparr>"
    by (simp_all add: eval_classes eval_numbers l n)
  from w3 c have 3: "parseSelectionChoice ''3 V'' MEDIA_AUDIO = parseSelectionChoice ''3v'' MEDIA_AUDIO"
    "parseSelectionChoice ''3v'' MEDIA_AUDIO = Some \<lparr>index = 3, mediaType = MEDIA_VIDEO\<rparr>"
    by (simp_all add: eval_classes eval_numbers l n)
  from 1 2 3 show ?thesis by blast
qed

section \<open>A send that fails\<close>

lemma startsWith_iff: "startsWith s t \<longleftrightarrow> (\<exists>q. s = t @ q)"
  by (induction s t rule: startsWith.induct) auto

lemma includes_str_iff: "includes_str s t \<longleftrightarrow> (\<exists>p q. s = p @ t @ q)"
proof (induction s)
  case Nil
  then show ?case by simp
next
  case (Cons c cs)
  show ?case
  proof
    assume "includes_str (c # cs) t"
    then consider "startsWith (c # cs) t" | "includes_str cs t" by auto
    then show "\<exists>p q. c # cs = p @ t @ q"
    proof cases
      case 1
      then obtain q where "c # cs = t @ q" unfolding startsWith_iff by blast
      then have "c # cs = [] @ t @ q" by simp
      then show ?thesis by blast
    next
      case 2
      with Cons obtain p q where "cs = p @ t @ q" by blast
      then have "c # cs = (c # p) @ t @ q" by simp
      then show ?thesis by blast
    qed
  next
    assume "\<exists>p q. c # cs = p @ t @ q"
    then obtain p q where pq: "c # cs = p @ t @ q" by blast
    show "includes_str (c # cs) t"
    proof (cases p)
      case Nil
      with pq have "startsWith (c # cs) t" unfolding startsWith_iff by auto
      then show ?thesis by simp
    next
      case (Cons a p')
      with pq have "cs = p' @ t @ q" by simp
      with Cons.IH have "includes_str cs t" by blast
      then show ?thesis by simp
    qed
  qed
qed

lemma includes_lower_iff:
  "includes_str (toLowerCase s) n \<longleftrightarrow> (\<exists>p m q. s = p @ m @ q \<and> toLowerCase m = n)"
proof
  assume "includes_str (toLowerCase s) n"
  then obtain p q where "map toLowerCaseChar s = p @ n @ q"
    unfolding includes_str_iff toLowerCase_def by blast
  then obtain us vs where 1: "s = us @ vs" "n @ q = map toLowerCaseChar vs"
    unfolding map_eq_append_conv by blast
  from 1(2) obtain m ws where 2: "vs = m @ ws" "n = map toLowerCaseChar m"
    unfolding append_eq_map_conv by blast
  from 1 2 have "s = us @ m @ ws \<and> toLowerCase m = n"
    unfolding toLowerCase_def by simp
  then show "\<exists>p m q. s = p @ m @ q \<and> toLowerCase m = n" by blast
next
  assume "\<exists>p m q. s = p @ m @ q \<and> toLowerCase m = n"
  then obtain p m q where "s = p @ m @ q" "toLowerCase m = n" by blast
  then have "toLowerCase s = toLowerCase p @ n @ toLowerCase q"
    by (simp add: toLowerCase_def)
  then show "includes_str (toLowerCase s) n" unfolding includes_str_iff by blast
qed

lemma isWhatsAppSizeError_iff:
  "isWhatsAppSizeError e \<longleftrightarrow>
     (\<exists>p m q. message e = p @ m @ q \<and>
        toLowerCase m \<in> {''too large'', ''media too big'', ''413''})"
  unfolding isWhatsAppSizeError_def Let_def includes_lower_iff by blast

lemma try_send_failed:
  assumes "reply_error env (Downloading mt (title v) (durationText v)) = None"
    and "download_outcome env mt = Inr downloadResult"
    and "reply_error env (Media mt (filePath downloadResult) (title v)) = Some sendError"
  shows "processSelectedMedia_try env v mt =
           (Some (if isWhatsAppSizeError sendError
                  then new_DownloadError ''FILE_TOO_LARGE''
                         ''Arquivo excede o limite de envio do WhatsApp.''
                  else sendError\<lparr>code := Some (if mt = MEDIA_VIDEO
                                                  then ''WHATSAPP_SEND_VIDEO_FAILED''
                                                  else ''WHATSAPP_SEND_AUDIO_FAILED'')\<rparr>),
            Some (filePath downloadResult),
            [Downloading mt (title v) (durationText v),
             Media mt (filePath downloadResult) (title v)])"
  using assms by (cases mt) (simp_all add: processSelectedMedia_try_def Let_def)

text \<open>
  C8.  When the download succeeded and \<open>replyVideo\<close> or \<open>replyAudio\<close> throws, the
  error that reaches the \<open>catch\<close> block is the \<open>DownloadError\<close>
  \<open>FILE_TOO_LARGE\<close> exactly when the message of the thrown error contains, in any
  case of letters, \<open>too large\<close>, \<open>media too big\<close> or \<open>413\<close>, and the user is
  then told the file is too large.  Otherwise it is the thrown error with its code set
  to \<open>WHATSAPP_SEND_VIDEO_FAILED\<close> or \<open>WHATSAPP_SEND_AUDIO_FAILED\<close> by media
  type, and for an error of the transport the user is told the send failed.
\<close>

theorem send_failure_classification:
  fixes sendError :: js_error
  defines "size_related \<equiv> (\<exists>p m q. message sendError = p @ m @ q \<and>
              toLowerCase m \<in> {''too large'', ''media too big'', ''413''})"
  assumes "reply_error env (Downloading mt (title v) (durationText v)) = None"
    and "download_outcome env mt = Inr downloadResult"
    and "reply_error env (Media mt (filePath downloadResult) (title v)) = Some sendError"
  shows "((caught (processSelectedMedia fmt cfg env v mt) =
            Some (new_DownloadError ''FILE_TOO_LARGE''
                    ''Arquivo excede o limite de envio do WhatsApp.'')) = size_related) \<and>
         (size_related \<longrightarrow>
            last (calls (processSelectedMedia fmt cfg env v mt)) =
              Failure ''O arquivo final ficou muito grande para envio no WhatsApp.'') \<and>
         (\<not> size_related \<longrightarrow>
            caught (processSelectedMedia fmt cfg env v mt) =
              Some (sendError\<lparr>code := Some (if mt = MEDIA_VIDEO
                                              then ''WHATSAPP_SEND_VIDEO_FAILED''
                                              else ''WHATSAPP_SEND_AUDIO_FAILED'')\<rparr>)) \<and>
         (\<not> size_related \<and> cls sendError = PlainError \<longrightarrow>
            last (calls (processSelectedMedia fmt cfg env v mt)) =
              Failure (if mt = MEDIA_VIDEO then ''Falha ao enviar o video no WhatsApp.''
                       else ''Falha ao enviar o audio no WhatsApp.''))"
proof -
  have sr: "size_related = isWhatsAppSizeError sendError"
    unfolding size_related_def isWhatsAppSizeError_iff ..
  define e where "e = (if isWhatsAppSizeError sendError
                  then new_DownloadError ''FILE_TOO_LARGE''
                         ''Arquivo excede o limite de envio do WhatsApp.''
                  else sendError\<lparr>code := Some (if mt = MEDIA_VIDEO
                                                  then ''WHATSAPP_SEND_VIDEO_FAILED''
                                                  else ''WHATSAPP_SEND_AUDIO_FAILED'')\<rparr>)"
  have c: "caught (processSelectedMedia fmt cfg env v mt) = Some e"
    and l: "last (calls (processSelectedMedia fmt cfg env v mt)) = Failure (mapPlayError fmt cfg e)"
    by (simp_all add: processSelectedMedia_def try_send_failed[OF assms(2-4)] e_def)
  show ?thesis
  proof (cases "isWhatsAppSizeError sendError")
    case True
    then have "e = new_DownloadError ''FILE_TOO_LARGE''
                         ''Arquivo excede o limite de envio do WhatsApp.''"
      by (simp add: e_def)
    with True show ?thesis
      unfolding sr c l by (simp add: new_DownloadError_def mapPlayError_def)
  next
    case False
    then have e: "e = sendError\<lparr>code := Some (if mt = MEDIA_VIDEO
                                                  then ''WHATSAPP_SEND_VIDEO_FAILED''
                                                  else ''WHATSAPP_SEND_AUDIO_FAILED'')\<rparr>"
      by (simp add: e_def)
    have ne: "e \<noteq> new_DownloadError ''FILE_TOO_LARGE''
                         ''Arquivo excede o limite de envio do WhatsApp.''"
    proof
      assume "e = new_DownloadError ''FILE_TOO_LARGE''
                         ''Arquivo excede o limite de envio do WhatsApp.''"
      then have "code e = Some ''FILE_TOO_LARGE''" by (simp add: new_DownloadError_def)
      then show False unfolding e by (simp split: if_splits)
    qed
    have m: "cls sendError = PlainError \<Longrightarrow> mapPlayError fmt cfg e =
        (if mt = MEDIA_VIDEO then ''Falha ao enviar o video no WhatsApp.''
                       else ''Falha ao enviar o audio no WhatsApp.'')"
      unfolding e by (simp add: mapPlayError_def)
    from False ne m show ?thesis
      unfolding sr c l using e by simp
  qed
qed

theorem send_failure_classification_witness:
  "caught (processSelectedMedia (\<lambda>n. ''30:00'') (load_config env_unset) env_send_413 clip MEDIA_VIDEO) =
     Some (new_DownloadError ''FILE_TOO_LARGE'' ''Arquivo excede o limite de envio do WhatsApp.'') \<and>
   last (calls (processSelectedMedia (\<lambda>n. ''30:00'') (load_config env_unset) env_send_413 clip MEDIA_VIDEO)) =
     Failure ''O arquivo final ficou muito grande para envio no WhatsApp.'' \<and>
   caught (processSelectedMedia (\<lambda>n. ''30:00'') (load_config env_unset) env_send_timeout clip MEDIA_AUDIO) =
     Some \<lparr>cls = PlainError, code = Some ''WHATSAPP_SEND_AUDIO_FAILED'', message = ''Timed Out''\<rparr> \<and>
   last (calls (processSelectedMedia (\<lambda>n. ''30:00'') (load_config env_unset) env_send_timeout clip MEDIA_AUDIO)) =
     Failure ''Falha ao enviar o audio no WhatsApp.''"
proof -
  let ?e413 = "\<lparr>cls = PlainError, code = None, message = ''Request failed: 413 Payload''\<rparr>"
  let ?eto = "\<lparr>cls = PlainError, code = None, message = ''Timed Out''\<rparr>"
  let ?res = "\<lparr>filePath = ''/d/clip-1-wa.mp4'', fileSize = 10\<rparr>"
  have h1: "reply_error env_send_413 (Downloading MEDIA_VIDEO (title clip) (durationText clip)) = None"
    "download_outcome env_send_413 MEDIA_VIDEO = Inr ?res"
    "reply_error env_send_413 (Media MEDIA_VIDEO (filePath ?res) (title clip)) = Some ?e413"
    by (simp_all add: env_send_413_def)
  have h2: "reply_error env_send_timeout (Downloading MEDIA_AUDIO (title clip) (durationText clip)) = None"
    "download_outcome env_send_timeout MEDIA_AUDIO = Inr ?res"
    "reply_error env_send_timeout (Media MEDIA_AUDIO (filePath ?res) (title clip)) = Some ?eto"
    by (simp_all add: env_send_timeout_def)
  have "message ?e413 = ''Request failed: '' @ ''413'' @ '' Payload'' \<and>
        toLowerCase ''413'' \<in> {''too large'', ''media too big'', ''413''}"
    by (simp add: toLowerCase_def toLowerCaseChar_def)
  then have s1: "\<exists>p m q. message ?e413 = p @ m @ q \<and>
        toLowerCase m \<in> {''too large'', ''media too big'', ''413''}"
    by blast
  have "\<not> isWhatsAppSizeError ?eto"
    by (simp add: isWhatsAppSizeError_def toLowerCase_def toLowerCaseChar_def)
  then have s2: "\<not> (\<exists>p m q. message ?eto = p @ m @ q \<and>
        toLowerCase m \<in> {''too large'', ''media too big'', ''413''})"
    unfolding isWhatsAppSizeError_iff .
  have c2: "cls ?eto = PlainError" by simp
  note w1 = send_failure_classification[OF h1, of "\<lambda>n. ''30:00''" "load_config env_unset"]
  note w2 = send_failure_classification[OF h2, of "\<lambda>n. ''30:00''" "load_config env_unset"]
  from w1 s1 have a: "caught (processSelectedMedia (\<lambda>n. ''30:00'') (load_config env_unset) env_send_413 clip MEDIA_VIDEO) =
     Some (new_DownloadError ''FILE_TOO_LARGE'' ''Arquivo excede o limite de envio do WhatsApp.'')"
    "last (calls (processSelectedMedia (\<lambda>n. ''30:00'') (load_config env_unset) env_send_413 clip MEDIA_VIDEO)) =
     Failure ''O arquivo final ficou muito grande para envio no WhatsApp.''"
    by blast+
  from w2 s2 c2 have b: "caught (processSelectedMedia (\<lambda>n. ''30:00'') (load_config env_unset) env_send_timeout clip MEDIA_AUDIO) =
     Some (?eto\<lparr>code := Some (if MEDIA_AUDIO = MEDIA_VIDEO
                                              then ''WHATSAPP_SEND_VIDEO_FAILED''
                                              else ''WHATSAPP_SEND_AUDIO_FAILED'')\<rparr>)"
   "last (calls (processSelectedMedia (\<lambda>n. ''30:00'') (load_config env_unset) env_send_timeout clip MEDIA_AUDIO)) =
     Failure (if MEDIA_AUDIO = MEDIA_VIDEO then ''Falha ao enviar o video no WhatsApp.''
                       else ''Falha ao enviar o audio no WhatsApp.'')"
    by blast+
  from a b show ?thesis by simp
qed

end
